theory Spec2Isabelle
  imports Complex_Main "HOL-Library.Log_Nat"
begin

section \<open>Data model\<close>

text \<open>
  The question object as \<^verbatim>\<open>GameManager\<close> reads it (\<^verbatim>\<open>generateMockQuestion\<close> in
  \<^verbatim>\<open>game.js\<close>): only the fields the scoring and hint code touch. The category may be
  absent (\<^verbatim>\<open>questionData.category?.toUpperCase()\<close>). Points, time limit and the timer
  are whole numbers in the source data (100, 75, 60, 45; the timer counts down by one).
\<close>

record question =
  questionId :: string
  category :: "string option"
  difficulty :: string
  points :: int
  timeLimit :: int
  correctAnswer :: string

text \<open>
  A JavaScript number that is the outcome of the score arithmetic: a whole number, or one
  of the two non-finite values a division by a zero time limit produces and
  \<^verbatim>\<open>Math.max(0, _)\<close> lets through.
\<close>

datatype jsnum = Num int | PosInfinity | NotANumber

datatype error = TypeError | HttpError nat | NetworkError | SyntaxError

text \<open>The fields of \<^verbatim>\<open>GameManager\<close> that scoring and hints read or write.\<close>

record game_manager =
  currentQuestion :: "question option"
  currentNpc :: "string option"
  timeRemaining :: int
  hintsUsed :: nat
  questionsAnswered :: nat
  correctAnswers :: nat
  selectedAnswer :: "string option"

text \<open>The object \<^verbatim>\<open>calculateScore\<close> returns (the explanation text is left out).\<close>

record score_result =
  isCorrect :: bool
  rSelectedAnswer :: "string option"
  rCorrectAnswer :: string
  baseScore :: int
  difficultyMultiplier :: rat
  timeBonus :: jsnum
  hintPenalty :: int
  totalScore :: jsnum

section \<open>GameManager.calculateScore\<close>

subsection \<open>Double-precision arithmetic\<close>

text \<open>
  JavaScript numbers are IEEE 754 doubles: every division and multiplication returns the
  double nearest to the exact result, a tie going to the even significand. A double is a
  whole number of at most 53 bits times a power of two. The functions below compute that
  rounding on the rationals. Whole numbers below \<open>2 ^ 53\<close>, such as the seconds of the
  timer and of the time limit, are doubles themselves. The exponent is not bounded here:
  the quantities of the score arithmetic (quotients of two whole numbers of seconds,
  products with 50) lie far inside the range of normal doubles.
\<close>

text \<open>Rounding to the nearest whole number, a tie going to the even one.\<close>

definition roundHalfEven :: "rat \<Rightarrow> int" where
  "roundHalfEven z =
     (let f = \<lfloor>z\<rfloor>; d = z - of_int f
      in if d < 1 / 2 then f else if 1 / 2 < d then f + 1 else if even f then f else f + 1)"

text \<open>
  The binary exponent of a positive rational \<open>x\<close>: the \<open>e\<close> with \<open>2 ^ e \<le> x < 2 ^ (e + 1)\<close>,
  found from the bit lengths of numerator and denominator.
\<close>

definition binaryExponent :: "rat \<Rightarrow> int" where
  "binaryExponent x =
     (case quotient_of x of (p, q) \<Rightarrow>
        let d = bitlen p - bitlen q in if x < 2 powi d then d - 1 else d)"

text \<open>The double nearest to \<open>x\<close>: 53 significant bits at the exponent of \<open>x\<close>.\<close>

definition toDouble :: "rat \<Rightarrow> rat" where
  "toDouble x =
     (if x = 0 then 0
      else let e = binaryExponent \<bar>x\<bar> - 52
           in of_int (roundHalfEven (x / 2 powi e)) * 2 powi e)"

subsection \<open>The score\<close>

text \<open>
  \<^verbatim>\<open>Math.max(0, Math.floor((this.timeRemaining / this.currentQuestion.timeLimit) * 50))\<close>:
  the quotient is rounded to a double, and so is its product with 50. With a zero time
  limit the quotient is \<^verbatim>\<open>Infinity\<close>, \<^verbatim>\<open>NaN\<close> or \<^verbatim>\<open>-Infinity\<close> according to the sign of the
  remaining time; the maximum with 0 maps the last to 0.
\<close>

definition timeBonusOf :: "int \<Rightarrow> int \<Rightarrow> jsnum" where
  "timeBonusOf remaining limit =
     (if limit = 0 then
        (if 0 < remaining then PosInfinity
         else if remaining = 0 then NotANumber
         else Num 0)
      else Num (max 0 \<lfloor>toDouble (toDouble (of_int remaining / of_int limit) * 50)\<rfloor>))"

text \<open>The \<^verbatim>\<open>switch\<close> on the difficulty string; any other string keeps the initial 1.\<close>

definition multiplierOf :: "string \<Rightarrow> rat" where
  "multiplierOf d =
     (if d = ''easy'' then 1
      else if d = ''medium'' then 3 / 2
      else if d = ''hard'' then 2
      else 1)"

text \<open>
  \<^verbatim>\<open>isCorrect ? Math.floor((baseScore * difficultyMultiplier) + timeBonus - hintPenalty) : 0\<close>.
  The operands are whole numbers and halves of whole numbers; on such values (below
  \<open>2 ^ 52\<close>) double arithmetic is exact, so the sum is written with exact arithmetic.
\<close>

definition totalScoreOf :: "bool \<Rightarrow> int \<Rightarrow> rat \<Rightarrow> jsnum \<Rightarrow> int \<Rightarrow> jsnum" where
  "totalScoreOf correct base mult bonus penalty =
     (if correct then
        (case bonus of
           Num b \<Rightarrow> Num \<lfloor>of_int base * mult + of_int b - of_int penalty\<rfloor>
         | PosInfinity \<Rightarrow> PosInfinity
         | NotANumber \<Rightarrow> NotANumber)
      else Num 0)"

text \<open>
  \<^verbatim>\<open>calculateScore()\<close> reads \<^verbatim>\<open>this.currentQuestion\<close>; with no question loaded the
  property access throws a \<^verbatim>\<open>TypeError\<close>.
\<close>

definition calculateScore :: "game_manager \<Rightarrow> error + score_result" where
  "calculateScore g =
     (case currentQuestion g of
        None \<Rightarrow> Inl TypeError
      | Some q \<Rightarrow>
          let correct = (selectedAnswer g = Some (correctAnswer q));
              base = points q;
              bonus = timeBonusOf (timeRemaining g) (timeLimit q);
              penalty = int (hintsUsed g) * 10;
              mult = multiplierOf (difficulty q)
          in Inr \<lparr> isCorrect = correct,
                   rSelectedAnswer = selectedAnswer g,
                   rCorrectAnswer = correctAnswer q,
                   baseScore = base,
                   difficultyMultiplier = mult,
                   timeBonus = bonus,
                   hintPenalty = penalty,
                   totalScore = totalScoreOf correct base mult bonus penalty \<rparr>)"

text \<open>The two sample questions of \<^verbatim>\<open>generateMockQuestion\<close>.\<close>

definition q001 :: question where
  "q001 = \<lparr> questionId = ''q001'', category = Some ''EC2'', difficulty = ''medium'',
            points = 100, timeLimit = 60, correctAnswer = ''B'' \<rparr>"

definition q002 :: question where
  "q002 = \<lparr> questionId = ''q002'', category = Some ''S3'', difficulty = ''easy'',
            points = 75, timeLimit = 45, correctAnswer = ''B'' \<rparr>"

text \<open>A game in which a question is being answered.\<close>

definition playing :: "question \<Rightarrow> string \<Rightarrow> int \<Rightarrow> nat \<Rightarrow> game_manager" where
  "playing q answer remaining hints =
     \<lparr> currentQuestion = Some q, currentNpc = Some ''alex_ceo'', timeRemaining = remaining,
       hintsUsed = hints, questionsAnswered = 0, correctAnswers = 0,
       selectedAnswer = Some answer \<rparr>"

section \<open>LevelSystem\<close>

text \<open>
  The mutable fields of \<^verbatim>\<open>LevelSystem\<close>. It keeps a reference to the game manager, read by
  \<^verbatim>\<open>getPlayerStats\<close>. The score passed to \<^verbatim>\<open>addScore\<close> is a whole number and may be
  negative; the source does not check it.
\<close>

record level_system =
  gameManager :: game_manager
  currentLevel :: nat
  currentExp :: int
  lsTotalScore :: int
  achievements :: "string list"
  streakCount :: nat
  maxStreak :: nat

text \<open>The constructor's values, before any saved progress is loaded.\<close>

definition newLevelSystem :: "game_manager \<Rightarrow> level_system" where
  "newLevelSystem gm =
     \<lparr> gameManager = gm, currentLevel = 1, currentExp = 0, lsTotalScore = 0,
       achievements = [], streakCount = 0, maxStreak = 0 \<rparr>"

definition levelThresholds :: "int list" where
  "levelThresholds =
     [0, 100, 300, 600, 1000, 1500, 2100, 2800, 3600, 4500,
      5500, 6600, 7800, 9100, 10500, 12000, 13600, 15300, 17100, 19000]"

text \<open>
  \<^verbatim>\<open>for (let i = length - 1; i >= 0; i--) if (exp >= thresholds[i]) return i + 1; return 1;\<close>
  The third argument is \<open>i + 1\<close>, the number of entries still to be looked at.
\<close>

fun levelLoop :: "int list \<Rightarrow> int \<Rightarrow> nat \<Rightarrow> nat" where
  "levelLoop thr e 0 = 1"
| "levelLoop thr e (Suc i) = (if thr ! i \<le> e then i + 1 else levelLoop thr e i)"

definition calculateLevel :: "level_system \<Rightarrow> nat" where
  "calculateLevel s = levelLoop levelThresholds (currentExp s) (length levelThresholds)"

record category_stats =
  EC2 :: nat
  S3 :: nat
  Lambda :: nat
  RDS :: nat
  VPC :: nat

definition getCategoryStats :: category_stats where
  "getCategoryStats = \<lparr> EC2 = 0, S3 = 0, Lambda = 0, RDS = 0, VPC = 0 \<rparr>"

record stats =
  sCorrectAnswers :: nat
  sQuestionsAnswered :: nat
  sTotalScore :: int
  sMaxStreak :: nat
  sCurrentStreak :: nat
  categoryStats :: category_stats

definition getPlayerStats :: "level_system \<Rightarrow> stats" where
  "getPlayerStats s =
     \<lparr> sCorrectAnswers = correctAnswers (gameManager s),
       sQuestionsAnswered = questionsAnswered (gameManager s),
       sTotalScore = lsTotalScore s,
       sMaxStreak = maxStreak s,
       sCurrentStreak = streakCount s,
       categoryStats = getCategoryStats \<rparr>"

text \<open>JavaScript's \<^verbatim>\<open>x > k\<close> and \<^verbatim>\<open>x >= k\<close> for a whole number \<open>k\<close>.\<close>

fun jsGreater :: "jsnum \<Rightarrow> int \<Rightarrow> bool" where
  "jsGreater (Num n) k = (k < n)"
| "jsGreater PosInfinity k = True"
| "jsGreater NotANumber k = False"

fun jsGreaterEq :: "jsnum \<Rightarrow> int \<Rightarrow> bool" where
  "jsGreaterEq (Num n) k = (k \<le> n)"
| "jsGreaterEq PosInfinity k = True"
| "jsGreaterEq NotANumber k = False"

text \<open>
  \<^verbatim>\<open>achievementDefinitions\<close>: identifier and condition, in the order the object literal
  declares them (the order \<^verbatim>\<open>for ... in\<close> visits string keys). Names, descriptions,
  icons and colours are left out.
\<close>

type_synonym condition = "stats \<Rightarrow> score_result option \<Rightarrow> bool"

definition achievementDefinitions :: "(string \<times> condition) list" where
  "achievementDefinitions =
     [(''first_correct'', \<lambda>st r. 1 \<le> sCorrectAnswers st),
      (''streak_5'', \<lambda>st r. 5 \<le> sMaxStreak st),
      (''streak_10'', \<lambda>st r. 10 \<le> sMaxStreak st),
      (''perfect_score'', \<lambda>st r.
          (case r of None \<Rightarrow> False
           | Some l \<Rightarrow> isCorrect l \<and> hintPenalty l = 0 \<and> jsGreater (timeBonus l) 0)),
      (''speed_demon'', \<lambda>st r.
          (case r of None \<Rightarrow> False
           | Some l \<Rightarrow> isCorrect l \<and> jsGreaterEq (timeBonus l) 40)),
      (''ec2_expert'', \<lambda>st r. 10 \<le> EC2 (categoryStats st)),
      (''s3_master'', \<lambda>st r. 10 \<le> S3 (categoryStats st)),
      (''lambda_guru'', \<lambda>st r. 10 \<le> Lambda (categoryStats st)),
      (''accuracy_master'', \<lambda>st r.
          10 \<le> sQuestionsAnswered st
          \<and> 9 / 10 \<le> (of_nat (sCorrectAnswers st) / of_nat (sQuestionsAnswered st) :: rat)),
      (''persistent_learner'', \<lambda>st r. 50 \<le> sQuestionsAnswered st),
      (''high_scorer'', \<lambda>st r. 5000 \<le> sTotalScore st)]"

text \<open>
  The loop of \<^verbatim>\<open>checkAchievements\<close>: \<open>ach\<close> is \<^verbatim>\<open>this.achievements\<close>, \<open>new\<close> is
  \<^verbatim>\<open>newAchievements\<close>; the statistics are taken once, before the loop.
\<close>

fun checkLoop ::
  "stats \<Rightarrow> score_result option \<Rightarrow> (string \<times> condition) list \<Rightarrow> string list \<Rightarrow> string list
     \<Rightarrow> string list \<times> string list" where
  "checkLoop st r [] ach new = (ach, new)"
| "checkLoop st r ((aid, cond) # ds) ach new =
     (if aid \<in> set ach then checkLoop st r ds ach new
      else if cond st r then checkLoop st r ds (ach @ [aid]) (new @ [aid])
      else checkLoop st r ds ach new)"

text \<open>Returns the newly unlocked identifiers and the updated system.\<close>

definition checkAchievements :: "score_result option \<Rightarrow> level_system \<Rightarrow> string list \<times> level_system" where
  "checkAchievements r s =
     (case checkLoop (getPlayerStats s) r achievementDefinitions (achievements s) [] of
        (ach, new) \<Rightarrow> (new, s\<lparr>achievements := ach\<rparr>))"

text \<open>\<^verbatim>\<open>this.achievements.slice(-5)\<close>; each definition object is stood for by its id.\<close>

definition getRecentAchievements :: "level_system \<Rightarrow> string list" where
  "getRecentAchievements s = drop (length (achievements s) - 5) (achievements s)"

record add_result =
  leveledUp :: bool
  newLevel :: nat
  newAchievements :: "string list"

text \<open>
  \<^verbatim>\<open>addScore(score, questionResult = null)\<close>. The animation, the interface update and the
  write to local storage do not touch the fields modelled here.
\<close>

definition addScore :: "int \<Rightarrow> score_result option \<Rightarrow> level_system \<Rightarrow> add_result \<times> level_system" where
  "addScore score questionResult s =
     (let s1 = s\<lparr>lsTotalScore := lsTotalScore s + score, currentExp := currentExp s + score\<rparr>;
          s2 = (case questionResult of
                  Some r \<Rightarrow>
                    (if isCorrect r
                     then s1\<lparr>streakCount := streakCount s1 + 1,
                             maxStreak := max (maxStreak s1) (streakCount s1 + 1)\<rparr>
                     else s1\<lparr>streakCount := 0\<rparr>)
                | None \<Rightarrow> s1\<lparr>streakCount := 0\<rparr>);
          level = calculateLevel s2;
          up = (currentLevel s2 < level);
          s3 = (if up then s2\<lparr>currentLevel := level\<rparr> else s2);
          s4 = snd (checkAchievements questionResult s3)
      in (\<lparr> leveledUp = up, newLevel = currentLevel s4,
             newAchievements = getRecentAchievements s4 \<rparr>, s4))"

text \<open>A sequence of \<^verbatim>\<open>addScore\<close> calls, first call first.\<close>

fun addScores :: "(int \<times> score_result option) list \<Rightarrow> level_system \<Rightarrow> level_system" where
  "addScores [] s = s"
| "addScores ((score, r) # cs) s = addScores cs (snd (addScore score r s))"

text \<open>
  What the specification calls the level of an experience value: the greatest 1-based index
  into the threshold table whose threshold the experience has reached.
\<close>

definition greatestLevel :: "int \<Rightarrow> nat \<Rightarrow> bool" where
  "greatestLevel e l \<longleftrightarrow>
     1 \<le> l \<and> l \<le> length levelThresholds \<and> levelThresholds ! (l - 1) \<le> e
     \<and> (\<forall>j \<in> {l + 1 .. length levelThresholds}. e < levelThresholds ! (j - 1))"

text \<open>
  The identifiers \<^verbatim>\<open>checkAchievements\<close> is expected to report: those of the definitions,
  in declaration order, that are not yet in \<open>ach\<close> and whose condition holds.
\<close>

definition unlockable ::
  "stats \<Rightarrow> score_result option \<Rightarrow> string list \<Rightarrow> (string \<times> condition) list \<Rightarrow> string list" where
  "unlockable st r ach ds = map fst (filter (\<lambda>(aid, cond). aid \<notin> set ach \<and> cond st r) ds)"

text \<open>The level agrees with the experience, and the experience is not negative.\<close>

definition levelMatches :: "level_system \<Rightarrow> bool" where
  "levelMatches s \<longleftrightarrow> 0 \<le> currentExp s \<and> currentLevel s = calculateLevel s"

text \<open>
  Sample inputs: the result of answering \<open>q001\<close> correctly after 15 seconds with one hint,
  the result of a wrong answer, and a player who has answered five questions and holds a
  streak of four.
\<close>

definition correctResult :: score_result where
  "correctResult =
     \<lparr> isCorrect = True, rSelectedAnswer = Some ''B'', rCorrectAnswer = ''B'',
       baseScore = 100, difficultyMultiplier = 3 / 2, timeBonus = Num 37,
       hintPenalty = 10, totalScore = Num 177 \<rparr>"

definition wrongResult :: score_result where
  "wrongResult =
     \<lparr> isCorrect = False, rSelectedAnswer = Some ''A'', rCorrectAnswer = ''B'',
       baseScore = 100, difficultyMultiplier = 3 / 2, timeBonus = Num 37,
       hintPenalty = 10, totalScore = Num 0 \<rparr>"

definition fourInARow :: level_system where
  "fourInARow =
     \<lparr> gameManager = (playing q001 ''B'' 45 1)\<lparr>questionsAnswered := 5, correctAnswers := 5\<rparr>,
       currentLevel = 1, currentExp = 95, lsTotalScore = 95,
       achievements = [''first_correct''], streakCount = 4, maxStreak = 4 \<rparr>"

section \<open>NPCSystem: typed text and hints\<close>

text \<open>
  The fields of \<^verbatim>\<open>NPCSystem\<close> that the typed-text effect and the hint code use:
  \<^verbatim>\<open>this.currentNpc\<close> and \<^verbatim>\<open>this.isTyping\<close>. The page itself is left out: showing and
  hiding the dialogue area, the buttons, and the text in the dialogue box, which depends
  on how the timers of overlapping typed effects interleave.
\<close>

record npc_system =
  npcCurrentNpc :: "string option"
  isTyping :: bool

text \<open>
  A JavaScript value as far as the hint code tells values apart: undefined (also a field
  the object lacks), null, a string, or anything else (a number, a boolean, an array, an
  object, a function) with its truthiness.
\<close>

datatype jsval = Undefined | Null | Str string | Other bool

text \<open>
  A hint object, as the remote service returns it and as the local fallback builds it.
\<close>

record hint_data =
  hint :: jsval
  message :: jsval
  hintLevel :: "nat option"
  source :: "string option"
  npcId :: "string option"
  hCategory :: "string option"

text \<open>JavaScript truthiness, and \<^verbatim>\<open>a || b\<close>.\<close>

definition truthy :: "jsval \<Rightarrow> bool" where
  "truthy a =
     (case a of Undefined \<Rightarrow> False | Null \<Rightarrow> False | Str s \<Rightarrow> s \<noteq> [] | Other t \<Rightarrow> t)"

definition jsOr :: "jsval \<Rightarrow> jsval \<Rightarrow> jsval" where
  "jsOr a b = (if truthy a then a else b)"

text \<open>Truthiness of \<^verbatim>\<open>this.currentNpc\<close>, a string or null.\<close>

definition selected :: "string option \<Rightarrow> bool" where
  "selected a = (case a of None \<Rightarrow> False | Some s \<Rightarrow> s \<noteq> [])"

text \<open>\<^verbatim>\<open>toUpperCase\<close> on the ASCII letters (category names are ASCII).\<close>

definition toUpperCase :: "string \<Rightarrow> string" where
  "toUpperCase s =
     map (\<lambda>c. let n = (of_char c :: nat) in if 97 \<le> n \<and> n \<le> 122 then char_of (n - 32) else c) s"

text \<open>
  The hint tables of \<^verbatim>\<open>generateEnhancedFallbackHint\<close>. Their entries are Korean sentences;
  each is stood for here by its place in the table: table name, level and key. Every level
  object has the five keys below, every category object the levels 1, 2 and 3. A level
  object is a plain object, so a key that names a member of \<^verbatim>\<open>Object.prototype\<close> finds that
  member, a function or an object. The category is looked up in upper case, which none of
  those names is.
\<close>

definition templateText :: "string \<Rightarrow> nat \<Rightarrow> string \<Rightarrow> string" where
  "templateText table level key =
     table @ ''/'' @ (if level = 1 then ''1'' else if level = 2 then ''2'' else ''3'') @ ''/'' @ key"

definition hintKeys :: "string list" where
  "hintKeys = [''base'', ''alex_ceo'', ''sarah_analyst'', ''mike_security'', ''jenny_developer'']"

definition objectMembers :: "string list" where
  "objectMembers =
     [''constructor'', ''__defineGetter__'', ''__defineSetter__'', ''hasOwnProperty'',
      ''__lookupGetter__'', ''__lookupSetter__'', ''isPrototypeOf'', ''propertyIsEnumerable'',
      ''toString'', ''valueOf'', ''__proto__'', ''toLocaleString'']"

definition levelObject :: "string \<Rightarrow> nat \<Rightarrow> string \<Rightarrow> jsval" where
  "levelObject table level key =
     (if key \<in> set hintKeys then Str (templateText table level key)
      else if key \<in> set objectMembers then Other True
      else Undefined)"

definition categoryObject :: "string \<Rightarrow> nat \<Rightarrow> (string \<Rightarrow> jsval) option" where
  "categoryObject table level =
     (if level = 1 \<or> level = 2 \<or> level = 3 then Some (levelObject table level) else None)"

definition enhancedHintTemplates ::
  "string \<Rightarrow> (nat \<Rightarrow> (string \<Rightarrow> jsval) option) option" where
  "enhancedHintTemplates c =
     (if c \<in> set [''EC2'', ''S3'', ''LAMBDA'', ''RDS'', ''VPC''] then Some (categoryObject c)
      else None)"

definition defaultHints :: "nat \<Rightarrow> (string \<Rightarrow> jsval) option" where
  "defaultHints = categoryObject ''default''"

text \<open>
  \<^verbatim>\<open>generateEnhancedFallbackHint(questionData, npcData, hintLevel)\<close>; \<^verbatim>\<open>npcData\<close> is not
  used by the body. When neither the category's table nor the default table has the level,
  \<^verbatim>\<open>levelHints\<close> is undefined and reading a property of it throws. A null
  \<^verbatim>\<open>this.currentNpc\<close> is the key \<^verbatim>\<open>null\<close>, which no level object has.
\<close>

definition generateEnhancedFallbackHint :: "npc_system \<Rightarrow> question \<Rightarrow> nat \<Rightarrow> error + hint_data" where
  "generateEnhancedFallbackHint n questionData level =
     (let cat = (case category questionData of
                   None \<Rightarrow> ''GENERAL''
                 | Some c \<Rightarrow> if toUpperCase c = [] then ''GENERAL'' else toUpperCase c);
          categoryHints = (case enhancedHintTemplates cat of
                             Some t \<Rightarrow> t
                           | None \<Rightarrow> defaultHints);
          levelHints = (case categoryHints level of
                          Some l \<Rightarrow> Some l
                        | None \<Rightarrow> defaultHints level)
      in case levelHints of
           None \<Rightarrow> Inl TypeError
         | Some l \<Rightarrow>
             Inr \<lparr> hint = l ''base'',
                   message = jsOr (case npcCurrentNpc n of None \<Rightarrow> Undefined | Some k \<Rightarrow> l k)
                               (l ''base''),
                   hintLevel = Some level,
                   source = Some ''enhanced_fallback'',
                   npcId = npcCurrentNpc n,
                   hCategory = Some cat \<rparr>)"

text \<open>
  \<^verbatim>\<open>typeMessage(message)\<close>, run to its end (its timers always fire). It sets \<^verbatim>\<open>isTyping\<close>;
  then \<^verbatim>\<open>message.length\<close> throws if the message is undefined or null. For every other
  value the loop runs to its end or is cut short by a skip or by another typed effect
  resetting the flag, and \<^verbatim>\<open>isTyping\<close> is reset before the call returns.
\<close>

definition typeMessage :: "jsval \<Rightarrow> npc_system \<Rightarrow> error option \<times> npc_system" where
  "typeMessage msg n =
     (case msg of
        Undefined \<Rightarrow> (Some TypeError, n\<lparr>isTyping := True\<rparr>)
      | Null \<Rightarrow> (Some TypeError, n\<lparr>isTyping := True\<rparr>)
      | Str m \<Rightarrow> (None, n\<lparr>isTyping := False\<rparr>)
      | Other t \<Rightarrow> (None, n\<lparr>isTyping := False\<rparr>))"

definition skipDialogue :: "npc_system \<Rightarrow> npc_system" where
  "skipDialogue n = n\<lparr>isTyping := False\<rparr>"

text \<open>
  How an asynchronous call ends: it throws, it returns, or it never settles. The last
  happens when \<^verbatim>\<open>waitForContinue\<close> waits for a press of the continue button that never
  comes, or when \<^verbatim>\<open>fetch\<close> gets no answer (the source sets no timeout).
\<close>

datatype 'a completion = Throws error | Waits | Returns 'a

text \<open>
  \<^verbatim>\<open>showNpcHint(hintData)\<close>: \<^verbatim>\<open>hintData.message || hintData.hint\<close> is typed, then the call
  waits for the continue button; \<open>continue\<close> says whether the player presses it. A null
  \<^verbatim>\<open>hintData\<close> throws at the property access.
\<close>

definition showNpcHint ::
  "bool \<Rightarrow> hint_data option \<Rightarrow> npc_system \<Rightarrow> unit completion \<times> npc_system" where
  "showNpcHint continue hintData n =
     (case hintData of
        None \<Rightarrow> (Throws TypeError, n)
      | Some h \<Rightarrow>
          (case typeMessage (jsOr (message h) (hint h)) n of
             (Some e, n') \<Rightarrow> (Throws e, n')
           | (None, n') \<Rightarrow> (if continue then Returns () else Waits, n')))"

text \<open>
  What the remote lookup can come back with: \<^verbatim>\<open>fetch\<close> rejects, never settles, or there
  is a response with a status and a body that is not JSON, is the JSON \<^verbatim>\<open>null\<close>, or is an
  object.
\<close>

datatype body = InvalidJson | JsonNull | JsonObject hint_data

datatype remote = FetchRejected | NoResponse | Response nat body

definition responseOk :: "nat \<Rightarrow> bool" where
  "responseOk status \<longleftrightarrow> 200 \<le> status \<and> status \<le> 299"

text \<open>The \<^verbatim>\<open>try\<close> block of \<^verbatim>\<open>requestNpcHint\<close>.\<close>

definition tryRemoteHint ::
  "bool \<Rightarrow> remote \<Rightarrow> npc_system \<Rightarrow> hint_data completion \<times> npc_system" where
  "tryRemoteHint continue rem n =
     (case rem of
        FetchRejected \<Rightarrow> (Throws NetworkError, n)
      | NoResponse \<Rightarrow> (Waits, n)
      | Response status b \<Rightarrow>
          if \<not> responseOk status then (Throws (HttpError status), n)
          else (case b of
                  InvalidJson \<Rightarrow> (Throws SyntaxError, n)
                | JsonNull \<Rightarrow> (Throws TypeError, n)
                | JsonObject h \<Rightarrow>
                    (case showNpcHint continue (Some h) n of
                       (Throws e, n') \<Rightarrow> (Throws e, n')
                     | (Waits, n') \<Rightarrow> (Waits, n')
                     | (Returns u, n') \<Rightarrow> (Returns h, n'))))"

text \<open>
  \<^verbatim>\<open>requestNpcHint(questionData, hintLevel)\<close>: null when no NPC is selected; the remote hint
  when the \<^verbatim>\<open>try\<close> block succeeds; when it throws, the \<^verbatim>\<open>catch\<close> block builds and shows the
  local hint, and an error thrown there reaches the caller.
\<close>

definition requestNpcHint ::
  "bool \<Rightarrow> question \<Rightarrow> nat \<Rightarrow> remote \<Rightarrow> npc_system
     \<Rightarrow> hint_data option completion \<times> npc_system" where
  "requestNpcHint continue questionData level rem n =
     (if \<not> selected (npcCurrentNpc n) then (Returns None, n)
      else (case tryRemoteHint continue rem n of
              (Returns h, n') \<Rightarrow> (Returns (Some h), n')
            | (Waits, n') \<Rightarrow> (Waits, n')
            | (Throws e, n') \<Rightarrow>
                (case generateEnhancedFallbackHint n' questionData level of
                   Inl e' \<Rightarrow> (Throws e', n')
                 | Inr fallbackHint \<Rightarrow>
                     (case showNpcHint continue (Some fallbackHint) n' of
                        (Throws e', n'') \<Rightarrow> (Throws e', n'')
                      | (Waits, n'') \<Rightarrow> (Waits, n'')
                      | (Returns u, n'') \<Rightarrow> (Returns (Some fallbackHint), n'')))))"

text \<open>
  \<^verbatim>\<open>GameManager.requestHint()\<close>. The game manager's \<^verbatim>\<open>npcSystem\<close> may be null. The outcome
  is one of the two warnings, the hint the NPC system returned, the basic hint with its
  index, the error notification of the \<^verbatim>\<open>catch\<close> block, or a call still waiting (the
  counter is incremented only after the \<^verbatim>\<open>await\<close>).
\<close>

datatype hint_outcome =
  NoQuestionWarning | NoHintsWarning | NpcHint "hint_data option" | BasicHint nat
  | HintError | HintPending

definition requestHint ::
  "bool \<Rightarrow> remote \<Rightarrow> game_manager \<times> npc_system option
     \<Rightarrow> hint_outcome \<times> game_manager \<times> npc_system option" where
  "requestHint continue rem gs =
     (case gs of (g, npcSystem) \<Rightarrow>
        (case currentQuestion g of
           None \<Rightarrow> (NoQuestionWarning, g, npcSystem)
         | Some q \<Rightarrow>
             if 3 \<le> hintsUsed g then (NoHintsWarning, g, npcSystem)
             else (case npcSystem of
                     None \<Rightarrow>
                       (BasicHint (min (hintsUsed g) 2), g\<lparr>hintsUsed := hintsUsed g + 1\<rparr>, npcSystem)
                   | Some n \<Rightarrow>
                       if selected (currentNpc g)
                       then (case requestNpcHint continue q (hintsUsed g + 1) rem n of
                               (Returns hintData, n') \<Rightarrow>
                                 (NpcHint hintData, g\<lparr>hintsUsed := hintsUsed g + 1\<rparr>, Some n')
                             | (Waits, n') \<Rightarrow> (HintPending, g, Some n')
                             | (Throws e, n') \<Rightarrow> (HintError, g, Some n'))
                       else (BasicHint (min (hintsUsed g) 2),
                             g\<lparr>hintsUsed := hintsUsed g + 1\<rparr>, npcSystem))))"

text \<open>
  The remote lookups on which the \<^verbatim>\<open>try\<close> block throws: the \<^verbatim>\<open>fetch\<close> is rejected, the
  status is not a success, the body does not parse, or the payload is null or has neither
  a message nor a hint to show.
\<close>

definition remoteThrows :: "remote \<Rightarrow> bool" where
  "remoteThrows rem =
     (case rem of
        FetchRejected \<Rightarrow> True
      | NoResponse \<Rightarrow> False
      | Response status b \<Rightarrow>
          \<not> responseOk status
          \<or> (case b of
                InvalidJson \<Rightarrow> True
              | JsonNull \<Rightarrow> True
              | JsonObject h \<Rightarrow>
                  jsOr (message h) (hint h) = Undefined \<or> jsOr (message h) (hint h) = Null))"

text \<open>
  Sample inputs: an NPC system in the middle of typing a line and one at rest, and two
  malformed payloads, one with empty texts and one whose message is a number.
\<close>

definition typingNpc :: npc_system where
  "typingNpc = \<lparr> npcCurrentNpc = Some ''alex_ceo'', isTyping = True \<rparr>"

definition idleNpc :: npc_system where
  "idleNpc = \<lparr> npcCurrentNpc = Some ''alex_ceo'', isTyping = False \<rparr>"

definition emptyPayload :: hint_data where
  "emptyPayload =
     \<lparr> hint = Str [], message = Str [], hintLevel = None, source = None, npcId = None,
       hCategory = None \<rparr>"

definition numberPayload :: hint_data where
  "numberPayload =
     \<lparr> hint = Undefined, message = Other True, hintLevel = None, source = None, npcId = None,
       hCategory = None \<rparr>"

section \<open>Properties of the score computation\<close>

subsection \<open>Rounding to doubles\<close>

lemma roundHalfEven_cases:
  "roundHalfEven z = \<lfloor>z\<rfloor> \<and> z - of_int \<lfloor>z\<rfloor> \<le> 1 / 2
   \<or> roundHalfEven z = \<lfloor>z\<rfloor> + 1 \<and> 1 / 2 \<le> z - of_int \<lfloor>z\<rfloor>"
  by (auto simp: roundHalfEven_def Let_def)


lemma roundHalfEven_le: "z \<le> of_int n \<Longrightarrow> roundHalfEven z \<le> n"
proof -
  assume a: "z \<le> of_int n"
  then have f: "\<lfloor>z\<rfloor> \<le> n" by (simp add: floor_le_iff) 
  from roundHalfEven_cases [of z] show ?thesis
  proof
    assume "roundHalfEven z = \<lfloor>z\<rfloor> \<and> z - of_int \<lfloor>z\<rfloor> \<le> 1 / 2"
    with f show ?thesis by simp
  next
    assume b: "roundHalfEven z = \<lfloor>z\<rfloor> + 1 \<and> 1 / 2 \<le> z - of_int \<lfloor>z\<rfloor>"
    then have "(of_int \<lfloor>z\<rfloor> :: rat) < z" by linarith
    with a have "(of_int \<lfloor>z\<rfloor> :: rat) < of_int n" by linarith
    then have "\<lfloor>z\<rfloor> < n" by simp
    with b show ?thesis by simp
  qed
qed

lemma roundHalfEven_ge: "of_int n \<le> z \<Longrightarrow> n \<le> roundHalfEven z"
proof -
  assume "of_int n \<le> z"
  then have "n \<le> \<lfloor>z\<rfloor>" by (simp add: le_floor_iff)
  with roundHalfEven_cases [of z] show ?thesis by auto
qed


lemma bitlen_bracket:
  assumes "0 < p"
  shows "(2::rat) powi (bitlen p - 1) \<le> of_int p" and "of_int p < (2::rat) powi bitlen p"
proof -
  from bitlen_bounds [OF assms] have lo: "2 ^ nat (bitlen p - 1) \<le> p" and hi: "p < 2 ^ nat (bitlen p)"
    by simp_all
  have b: "1 \<le> bitlen p" using assms bitlen_eq_zero_iff [of p] bitlen_nonneg [of p] by linarith
  have "(2::rat) powi (bitlen p - 1) = 2 ^ nat (bitlen p - 1)"
    using b by (simp add: power_int_nonneg_exp)
  also have "\<dots> = of_int (2 ^ nat (bitlen p - 1))" by simp
  also have "\<dots> \<le> of_int p" using lo by (simp only: of_int_le_iff)
  finally show "(2::rat) powi (bitlen p - 1) \<le> of_int p" .
  have "(of_int p :: rat) < of_int (2 ^ nat (bitlen p))" using hi by (simp only: of_int_less_iff)
  also have "\<dots> = 2 ^ nat (bitlen p)" by simp
  also have "\<dots> = (2::rat) powi bitlen p" using b by (simp add: power_int_nonneg_exp)
  finally show "of_int p < (2::rat) powi bitlen p" .
qed

lemma binaryExponent_bracket:
  assumes "0 < x"
  shows "2 powi binaryExponent x \<le> x" and "x < 2 powi (binaryExponent x + 1)"
proof -
  obtain p q where pq: "quotient_of x = (p, q)" by force
  then have q: "0 < q" by (rule quotient_of_denom_pos)
  from pq have x: "x = of_int p / of_int q" by (rule quotient_of_div)
  with assms q have p: "0 < p" by (simp add: zero_less_divide_iff)
  define d where "d = bitlen p - bitlen q"
  note bp = bitlen_bracket [OF p] and bq = bitlen_bracket [OF q]
  have qpos: "(0::rat) < of_int q" using q by simp
  have lo: "(2::rat) powi (d - 1) \<le> x"
  proof -
    have "d - 1 = bitlen p - 1 - bitlen q" by (simp add: d_def)
    then have "(2::rat) powi (d - 1) = 2 powi (bitlen p - 1) / 2 powi bitlen q"
      by (simp only: power_int_diff [of "2::rat", simplified])
    also have "\<dots> \<le> of_int p / 2 powi bitlen q"
      using bp(1) by (simp add: divide_right_mono)
    also have "\<dots> \<le> of_int p / of_int q"
      using bq(2) qpos p by (intro divide_left_mono) (simp_all add: less_imp_le)
    finally show ?thesis by (simp add: x)
  qed
  have hi: "x < (2::rat) powi (d + 1)"
  proof -
    have "x = of_int p / of_int q" by (rule x)
    also have "\<dots> < 2 powi bitlen p / of_int q"
      using bp(2) qpos by (simp add: divide_strict_right_mono)
    also have "\<dots> \<le> 2 powi bitlen p / 2 powi (bitlen q - 1)"
      using bq(1) qpos by (intro divide_left_mono) (simp_all add: zero_less_mult_iff)
    also have "\<dots> = (2::rat) powi (bitlen p - (bitlen q - 1))"
      by (simp only: power_int_diff [of "2::rat", simplified])
    also have "bitlen p - (bitlen q - 1) = d + 1" by (simp add: d_def)
    finally show ?thesis .
  qed
  have e: "binaryExponent x = (if x < 2 powi d then d - 1 else d)"
    by (simp add: binaryExponent_def pq d_def Let_def)
  show "2 powi binaryExponent x \<le> x" using lo by (simp add: e)
  show "x < 2 powi (binaryExponent x + 1)" using hi by (simp add: e)
qed

lemma binaryExponent_unique:
  assumes "2 powi e \<le> x" and "x < 2 powi (e + 1)"
  shows "binaryExponent x = e"
proof -
  have "(0::rat) < 2 powi e" by simp
  with assms(1) have x: "0 < x" by linarith
  note b = binaryExponent_bracket [OF x]
  show ?thesis
  proof (rule ccontr)
    assume "binaryExponent x \<noteq> e"
    then consider "binaryExponent x + 1 \<le> e" | "e + 1 \<le> binaryExponent x" by linarith
    then show False
    proof cases
      case 1
      then have "(2::rat) powi (binaryExponent x + 1) \<le> 2 powi e"
        by (intro power_int_increasing) simp_all
      with b(2) assms(1) show False by linarith
    next
      case 2
      then have "(2::rat) powi (e + 1) \<le> 2 powi binaryExponent x"
        by (intro power_int_increasing) simp_all
      with b(1) assms(2) show False by linarith
    qed
  qed
qed

lemma binaryExponent_mono:
  assumes "0 < x" and "x \<le> y"
  shows "binaryExponent x \<le> binaryExponent y"
proof (rule ccontr)
  assume "\<not> binaryExponent x \<le> binaryExponent y"
  then have "binaryExponent y + 1 \<le> binaryExponent x" by linarith
  then have "(2::rat) powi (binaryExponent y + 1) \<le> 2 powi binaryExponent x"
    by (intro power_int_increasing) simp_all
  moreover from assms have y: "0 < y" by linarith
  ultimately show False
    using binaryExponent_bracket(1) [OF assms(1)] binaryExponent_bracket(2) [OF y] assms(2)
    by linarith
qed

lemma scaled_bracket:
  assumes "0 < x"
  defines "s \<equiv> (2::rat) powi (binaryExponent x - 52)"
  shows "0 < s" and "s * 2 ^ 52 \<le> x" and "x < s * 2 ^ 53"
    and "of_int (2 ^ 52) \<le> x / s" and "x / s \<le> of_int (2 ^ 53)"
proof -
  show s: "0 < s" by (simp add: s_def)
  have "s * 2 ^ 52 = 2 powi (binaryExponent x - 52) * 2 powi 52" by (simp add: s_def)
  also have "\<dots> = 2 powi (binaryExponent x - 52 + 52)"
    by (simp only: power_int_add [of "2::rat", simplified])
  also have "binaryExponent x - 52 + 52 = binaryExponent x" by simp
  finally have a: "s * 2 ^ 52 = 2 powi binaryExponent x" .
  have "s * 2 ^ 53 = 2 powi (binaryExponent x - 52) * 2 powi 53" by (simp add: s_def)
  also have "\<dots> = 2 powi (binaryExponent x - 52 + 53)"
    by (simp only: power_int_add [of "2::rat", simplified])
  also have "binaryExponent x - 52 + 53 = binaryExponent x + 1" by simp
  finally have b: "s * 2 ^ 53 = 2 powi (binaryExponent x + 1)" .
  show lo: "s * 2 ^ 52 \<le> x" using binaryExponent_bracket(1) [OF assms(1)] by (simp only: a)
  show hi: "x < s * 2 ^ 53" using binaryExponent_bracket(2) [OF assms(1)] by (simp only: b)
  show "of_int (2 ^ 52) \<le> x / s" using lo s by (simp add: pos_le_divide_eq mult.commute)
  show "x / s \<le> of_int (2 ^ 53)" using hi s by (simp add: pos_divide_le_eq mult.commute)
qed

lemma toDouble_pos_eq:
  "0 < x \<Longrightarrow>
   toDouble x = of_int (roundHalfEven (x / 2 powi (binaryExponent x - 52)))
                  * 2 powi (binaryExponent x - 52)"
  by (simp add: toDouble_def Let_def)


lemma toDouble_positive:
  assumes "0 < x"
  shows "0 < toDouble x"
proof -
  define s where "s = (2::rat) powi (binaryExponent x - 52)"
  note sb = scaled_bracket [OF assms, folded s_def]
  from roundHalfEven_ge [OF sb(4)] have "0 < roundHalfEven (x / s)" by simp
  then show ?thesis
    using sb(1) by (simp add: toDouble_pos_eq [OF assms] s_def [symmetric] zero_less_mult_iff)
qed

lemma toDouble_le_representable:
  assumes "0 < x" and "x \<le> c"
    and c: "c = of_int m * 2 powi (binaryExponent c - 52)"
  shows "toDouble x \<le> c"
proof -
  define s where "s = (2::rat) powi (binaryExponent x - 52)"
  note sb = scaled_bracket [OF assms(1), folded s_def]
  from assms have cpos: "0 < c" by linarith
  have td: "toDouble x = of_int (roundHalfEven (x / s)) * s"
    by (simp add: toDouble_pos_eq [OF assms(1)] s_def)
  from binaryExponent_mono [OF assms(1,2)]
  consider "binaryExponent x = binaryExponent c" | "binaryExponent x + 1 \<le> binaryExponent c"
    by linarith
  then show ?thesis
  proof cases
    case 1
    then have cs: "c = of_int m * s" using c by (simp add: s_def)
    have "x / s \<le> of_int m" using assms(2) sb(1) by (simp add: cs pos_divide_le_eq)
    then have "roundHalfEven (x / s) \<le> m" by (rule roundHalfEven_le)
    then have "(of_int (roundHalfEven (x / s)) :: rat) \<le> of_int m" by (simp only: of_int_le_iff)
    then show ?thesis using sb(1) by (simp add: td cs mult_right_mono)
  next
    case 2
    from roundHalfEven_le [OF sb(5)]
    have "(of_int (roundHalfEven (x / s)) :: rat) \<le> of_int (2 ^ 53)" by (simp only: of_int_le_iff)
    then have "toDouble x \<le> of_int (2 ^ 53) * s"
      using sb(1) by (simp only: td) (rule mult_right_mono, simp_all)
    also have "\<dots> = 2 powi (binaryExponent x - 52) * 2 powi 53" by (simp add: s_def)
    also have "\<dots> = 2 powi (binaryExponent x - 52 + 53)"
      by (simp only: power_int_add [of "2::rat", simplified])
    also have "binaryExponent x - 52 + 53 = binaryExponent x + 1" by simp
    also have "(2::rat) powi (binaryExponent x + 1) \<le> 2 powi binaryExponent c"
      using 2 by (intro power_int_increasing) simp_all
    also have "\<dots> \<le> c" by (rule binaryExponent_bracket(1) [OF cpos])
    finally show ?thesis .
  qed
qed


lemma binaryExponent_1: "binaryExponent 1 = 0"
  by (rule binaryExponent_unique) simp_all

lemma binaryExponent_50: "binaryExponent 50 = 5"
  by (rule binaryExponent_unique) simp_all

lemma toDouble_le_1: "0 < x \<Longrightarrow> x \<le> 1 \<Longrightarrow> toDouble x \<le> 1"
  by (rule toDouble_le_representable [where m = "2 ^ 52"]) (simp_all add: binaryExponent_1)

lemma toDouble_le_50: "0 < x \<Longrightarrow> x \<le> 50 \<Longrightarrow> toDouble x \<le> 50"
  by (rule toDouble_le_representable [where m = "50 * 2 ^ 47"]) (simp_all add: binaryExponent_50)



subsection \<open>The time bonus\<close>

lemma toDouble_0: "toDouble 0 = 0"
  by (simp add: toDouble_def)

lemma doubleBonus_range:
  assumes "0 \<le> r" and "r \<le> t" and "0 < t"
  shows "0 \<le> toDouble (toDouble (of_int r / of_int t) * 50)"
    and "toDouble (toDouble (of_int r / of_int t) * 50) \<le> 50"
proof -
  define x :: rat where "x = of_int r / of_int t"
  have x0: "0 \<le> x" and x1: "x \<le> 1" using assms by (simp_all add: x_def)
  have "0 \<le> toDouble (toDouble x * 50) \<and> toDouble (toDouble x * 50) \<le> 50"
  proof (cases "x = 0")
    case True
    then show ?thesis by (simp add: toDouble_0)
  next
    case False
    with x0 have xp: "0 < x" by simp
    have a: "0 < toDouble x" by (rule toDouble_positive [OF xp])
    have b: "toDouble x \<le> 1" by (rule toDouble_le_1 [OF xp x1])
    from a b have "0 < toDouble x * 50" "toDouble x * 50 \<le> 50" by simp_all
    then show ?thesis using toDouble_positive toDouble_le_50 by (simp add: less_imp_le)
  qed
  then show "0 \<le> toDouble (toDouble (of_int r / of_int t) * 50)"
    and "toDouble (toDouble (of_int r / of_int t) * 50) \<le> 50"
    by (simp_all add: x_def)
qed




lemma timeBonusOf_in_time:
  assumes "0 \<le> e" and "e \<le> t" and "0 < t"
  shows "timeBonusOf (t - e) t = Num \<lfloor>toDouble (toDouble (of_int (t - e) / of_int t) * 50)\<rfloor>"
proof -
  have r: "0 \<le> t - e" "t - e \<le> t" using assms by simp_all
  from doubleBonus_range(1) [OF r assms(3)]
  have "0 \<le> \<lfloor>toDouble (toDouble (of_int (t - e) / of_int t) * 50)\<rfloor>"
    by (simp only: zero_le_floor)
  then show ?thesis using assms(3) by (simp add: timeBonusOf_def max_absorb2)
qed

lemma timeBonus_range:
  assumes "0 \<le> e" and "e \<le> t" and "0 < t"
  shows "\<exists>tb. timeBonusOf (t - e) t = Num tb \<and> 0 \<le> tb \<and> tb \<le> 50"
proof -
  have r: "0 \<le> t - e" "t - e \<le> t" using assms by simp_all
  define y where "y = toDouble (toDouble (of_int (t - e) / of_int t) * 50)"
  from doubleBonus_range [OF r assms(3)] have y0: "0 \<le> y" and y1: "y \<le> of_int 50"
    by (simp_all add: y_def)
  from y0 have lo: "0 \<le> \<lfloor>y\<rfloor>" by (simp only: zero_le_floor)
  from y1 have hi: "\<lfloor>y\<rfloor> \<le> 50" by (metis floor_mono floor_of_int)
  from timeBonusOf_in_time [OF assms] lo hi show ?thesis by (simp add: y_def)
qed


subsection \<open>The score\<close>

lemma totalScoreOf_correct:
  "totalScoreOf True b m (Num tb) p = Num (\<lfloor>of_int b * m + of_int tb\<rfloor> - p)"
  unfolding totalScoreOf_def by simp

lemma totalScoreOf_incorrect: "totalScoreOf False b m tb p = Num 0"
  unfolding totalScoreOf_def by simp

lemma calculateScore_Some:
  "currentQuestion g = Some q \<Longrightarrow>
   calculateScore g =
     Inr \<lparr> isCorrect = (selectedAnswer g = Some (correctAnswer q)),
           rSelectedAnswer = selectedAnswer g,
           rCorrectAnswer = correctAnswer q,
           baseScore = points q,
           difficultyMultiplier = multiplierOf (difficulty q),
           timeBonus = timeBonusOf (timeRemaining g) (timeLimit q),
           hintPenalty = int (hintsUsed g) * 10,
           totalScore = totalScoreOf (selectedAnswer g = Some (correctAnswer q)) (points q)
              (multiplierOf (difficulty q)) (timeBonusOf (timeRemaining g) (timeLimit q))
              (int (hintsUsed g) * 10) \<rparr>"
  unfolding calculateScore_def by (simp add: Let_def)






text \<open>
  C2 (as the code has it). For a question with non-negative points and a positive time
  limit and a submission with \<open>0 \<le> elapsed \<le> timeLimit\<close>, the time bonus lies between 0 and
  50 and the total never exceeds \<open>floor (points * multiplier) + 50\<close>. The total is not
  clamped: for a correct answer it is exactly
  \<open>floor (points * multiplier) + timeBonus - 10 * hintsUsed\<close>, for an incorrect one it is 0,
  and so it is non-negative exactly when the answer is incorrect or the hint penalty does
  not exceed \<open>floor (points * multiplier) + timeBonus\<close>.
\<close>

theorem calculateScore_total_bounds:
  assumes "currentQuestion g = Some q" and "0 \<le> points q"
    and "0 \<le> elapsed" and "elapsed \<le> timeLimit q" and "0 < timeLimit q"
    and "timeRemaining g = timeLimit q - elapsed"
  shows "\<exists>res n tb. calculateScore g = Inr res \<and> totalScore res = Num n
      \<and> timeBonus res = Num tb \<and> 0 \<le> tb \<and> tb \<le> 50
      \<and> n \<le> \<lfloor>of_int (points q) * difficultyMultiplier res\<rfloor> + 50
      \<and> (isCorrect res \<longrightarrow>
            n = \<lfloor>of_int (points q) * difficultyMultiplier res\<rfloor> + tb - 10 * int (hintsUsed g))
      \<and> (\<not> isCorrect res \<longrightarrow> n = 0)
      \<and> (0 \<le> n \<longleftrightarrow>
           (isCorrect res \<longrightarrow>
              10 * int (hintsUsed g) \<le> \<lfloor>of_int (points q) * difficultyMultiplier res\<rfloor> + tb))"
proof -
  from timeBonus_range [OF assms(3,4,5)] obtain tb where
    tb: "timeBonusOf (timeLimit q - elapsed) (timeLimit q) = Num tb"
    and lo: "0 \<le> tb" and hi: "tb \<le> 50"
    by blast
  have m: "0 \<le> multiplierOf (difficulty q)" unfolding multiplierOf_def by simp
  have "0 \<le> of_int (points q) * multiplierOf (difficulty q)"
    using assms(2) m by simp
  then have base: "0 \<le> \<lfloor>of_int (points q) * multiplierOf (difficulty q)\<rfloor>"
    by (simp only: zero_le_floor)
  show ?thesis
  proof (cases "selectedAnswer g = Some (correctAnswer q)")
    case True
    then show ?thesis
      unfolding calculateScore_Some [OF assms(1)] assms(6) tb
      using lo hi by (auto simp: totalScoreOf_correct)
  next
    case False
    then show ?thesis
      unfolding calculateScore_Some [OF assms(1)] assms(6) tb
      using lo hi base by (simp add: totalScoreOf_incorrect)
  qed
qed

theorem calculateScore_total_bounds_witness:
  "currentQuestion (playing q001 ''B'' 45 1) = Some q001 \<and> 0 \<le> points q001
   \<and> (0::int) \<le> 15 \<and> 15 \<le> timeLimit q001 \<and> 0 < timeLimit q001
   \<and> timeRemaining (playing q001 ''B'' 45 1) = timeLimit q001 - 15
   \<and> (\<exists>res n. calculateScore (playing q001 ''B'' 45 1) = Inr res \<and> totalScore res = Num n
         \<and> 0 \<le> n \<and> n \<le> 200)"
proof -
  have h: "currentQuestion (playing q001 ''B'' 45 1) = Some q001" "0 \<le> points q001"
    "(0::int) \<le> 15" "15 \<le> timeLimit q001" "0 < timeLimit q001"
    "timeRemaining (playing q001 ''B'' 45 1) = timeLimit q001 - 15"
    by (simp_all add: playing_def q001_def)
  from calculateScore_total_bounds [OF h] obtain res n tb where
    r: "calculateScore (playing q001 ''B'' 45 1) = Inr res" and t: "totalScore res = Num n"
    and hi: "n \<le> \<lfloor>of_int (points q001) * difficultyMultiplier res\<rfloor> + 50"
    and c: "isCorrect res \<longrightarrow>
            n = \<lfloor>of_int (points q001) * difficultyMultiplier res\<rfloor> + tb
                - 10 * int (hintsUsed (playing q001 ''B'' 45 1))"
    and lo: "0 \<le> tb"
    by blast
  have res: "isCorrect res" "difficultyMultiplier res = 3 / 2"
    using r by (auto simp: calculateScore_def playing_def q001_def multiplierOf_def Let_def)
  have f: "\<lfloor>of_int (points q001) * (3 / 2 :: rat)\<rfloor> = 150"
    by (simp add: q001_def)
  have "n \<le> 200" using hi unfolding res f by simp
  moreover have "0 \<le> n" using c lo res(1) unfolding res(2) f by (simp add: playing_def)
  ultimately show ?thesis using r t h by blast
qed

text \<open>
  A correct answer to an easy 10-point question, given as the 45 seconds run out and after
  three hints, scores \<open>10 + 0 - 30 = - 20\<close>: the total is negative.
\<close>

theorem calculateScore_negative_total:
  "calculateScore (playing (q002\<lparr>points := 10\<rparr>) ''B'' 0 3) =
     Inr \<lparr> isCorrect = True, rSelectedAnswer = Some ''B'', rCorrectAnswer = ''B'',
           baseScore = 10, difficultyMultiplier = 1, timeBonus = Num 0,
           hintPenalty = 30, totalScore = Num (- 20) \<rparr>"
  by code_simp

text \<open>
  C3. Whenever the selected option is not the question's correct option, the total is 0,
  whatever the number of hints used and the time remaining.
\<close>

theorem calculateScore_incorrect_zero:
  assumes "currentQuestion g = Some q" and "selectedAnswer g \<noteq> Some (correctAnswer q)"
  shows "\<exists>res. calculateScore g = Inr res \<and> \<not> isCorrect res \<and> totalScore res = Num 0"
  unfolding calculateScore_Some [OF assms(1)] using assms(2)
  by (simp add: totalScoreOf_incorrect)

theorem calculateScore_incorrect_zero_witness:
  "currentQuestion (playing q001 ''A'' 60 3) = Some q001
   \<and> selectedAnswer (playing q001 ''A'' 60 3) \<noteq> Some (correctAnswer q001)
   \<and> (\<exists>res. calculateScore (playing q001 ''A'' 60 3) = Inr res
         \<and> \<not> isCorrect res \<and> totalScore res = Num 0)"
proof -
  have h: "currentQuestion (playing q001 ''A'' 60 3) = Some q001"
    "selectedAnswer (playing q001 ''A'' 60 3) \<noteq> Some (correctAnswer q001)"
    by (simp_all add: playing_def q001_def)
  from calculateScore_incorrect_zero [OF h] h show ?thesis by blast
qed

section \<open>Properties of the level system\<close>

lemma levelLoop_ge1: "1 \<le> levelLoop thr e n"
  by (induction n) simp_all

lemma levelLoop_le: "levelLoop thr e n \<le> max 1 n"
  by (induction n) auto

lemma levelLoop_reached:
  "0 < n \<Longrightarrow> thr ! 0 \<le> e \<Longrightarrow> thr ! (levelLoop thr e n - 1) \<le> e"
proof (induction n)
  case 0
  then show ?case by simp
next
  case (Suc n)
  then show ?case by (cases n) auto
qed

lemma levelLoop_above:
  "levelLoop thr e n < j \<Longrightarrow> j \<le> n \<Longrightarrow> e < thr ! (j - 1)"
proof (induction n)
  case 0
  then show ?case by simp
next
  case (Suc n)
  show ?case
  proof (cases "thr ! n \<le> e")
    case True
    with Suc.prems show ?thesis by simp
  next
    case False
    show ?thesis
    proof (cases "j = Suc n")
      case True
      with False show ?thesis by simp
    next
      case ne: False
      with Suc.prems False have "levelLoop thr e n < j" "j \<le> n" by simp_all
      then show ?thesis by (rule Suc.IH)
    qed
  qed
qed

lemma levelLoop_mono: "e \<le> e' \<Longrightarrow> levelLoop thr e n \<le> levelLoop thr e' n"
proof (induction n)
  case 0
  then show ?case by simp
next
  case (Suc n)
  have "levelLoop thr e n \<le> Suc n"
    using levelLoop_le [of thr e n] by (simp add: max_def split: if_splits)
  with Suc show ?case by auto
qed

lemma length_levelThresholds: "length levelThresholds = 20"
  by (simp add: levelThresholds_def)

lemma levelThresholds_0: "levelThresholds ! 0 = 0"
  by (simp add: levelThresholds_def)

lemma calculateLevel_range: "1 \<le> calculateLevel s \<and> calculateLevel s \<le> 20"
  using levelLoop_ge1 [of levelThresholds "currentExp s" 20]
    levelLoop_le [of levelThresholds "currentExp s" 20]
  by (simp add: calculateLevel_def length_levelThresholds)

lemma calculateLevel_greatest:
  assumes "0 \<le> currentExp s"
  shows "greatestLevel (currentExp s) (calculateLevel s)"
proof -
  have "levelThresholds ! (calculateLevel s - 1) \<le> currentExp s"
    unfolding calculateLevel_def length_levelThresholds
    by (rule levelLoop_reached) (simp_all add: levelThresholds_0 assms)
  moreover have "\<forall>j \<in> {calculateLevel s + 1 .. 20}. currentExp s < levelThresholds ! (j - 1)"
  proof
    fix j
    assume "j \<in> {calculateLevel s + 1 .. 20}"
    then have "levelLoop levelThresholds (currentExp s) 20 < j" and "j \<le> 20"
      by (simp_all add: calculateLevel_def length_levelThresholds)
    then show "currentExp s < levelThresholds ! (j - 1)" by (rule levelLoop_above)
  qed
  ultimately show ?thesis
    using calculateLevel_range [of s] by (simp add: greatestLevel_def length_levelThresholds)
qed

lemma greatestLevel_unique:
  assumes "greatestLevel e l" and "greatestLevel e l'"
  shows "l = l'"
proof (rule ccontr)
  assume "l \<noteq> l'"
  then consider "l < l'" | "l' < l" by linarith
  then show False
  proof cases
    case 1
    with assms have "e < levelThresholds ! (l' - 1)" "levelThresholds ! (l' - 1) \<le> e"
      by (auto simp: greatestLevel_def)
    then show False by simp
  next
    case 2
    with assms have "e < levelThresholds ! (l - 1)" "levelThresholds ! (l - 1) \<le> e"
      by (auto simp: greatestLevel_def)
    then show False by simp
  qed
qed

lemma unlockable_Nil: "unlockable st r ach [] = []"
  by (simp add: unlockable_def)

lemma unlockable_Cons:
  "unlockable st r ach ((aid, cond) # ds) =
     (if aid \<notin> set ach \<and> cond st r then aid # unlockable st r ach ds
      else unlockable st r ach ds)"
  by (simp add: unlockable_def)

lemma unlockable_snoc_other:
  "aid \<notin> fst ` set ds \<Longrightarrow> unlockable st r (ach @ [aid]) ds = unlockable st r ach ds"
proof -
  assume a: "aid \<notin> fst ` set ds"
  have "filter (\<lambda>(x, cond). x \<notin> set (ach @ [aid]) \<and> cond st r) ds
        = filter (\<lambda>(x, cond). x \<notin> set ach \<and> cond st r) ds"
    by (rule filter_cong) (use a in \<open>auto simp: image_iff\<close>)
  then show ?thesis by (simp add: unlockable_def)
qed

lemma checkLoop_closed:
  "distinct (map fst ds) \<Longrightarrow>
   checkLoop st r ds ach new = (ach @ unlockable st r ach ds, new @ unlockable st r ach ds)"
proof (induction ds arbitrary: ach new)
  case Nil
  show ?case by (simp add: unlockable_Nil)
next
  case (Cons d ds)
  obtain aid cond where d: "d = (aid, cond)" by (cases d)
  from Cons.prems have nin: "aid \<notin> fst ` set ds" and dist: "distinct (map fst ds)"
    by (simp_all add: d)
  note IH = Cons.IH [OF dist]
  show ?case
    unfolding d by (simp add: IH unlockable_Cons unlockable_snoc_other [OF nin])
qed

lemma distinct_achievementDefinitions: "distinct (map fst achievementDefinitions)"
  by (simp add: achievementDefinitions_def)

lemma checkAchievements_closed:
  "checkAchievements r s =
     (unlockable (getPlayerStats s) r (achievements s) achievementDefinitions,
      s\<lparr>achievements := achievements s
           @ unlockable (getPlayerStats s) r (achievements s) achievementDefinitions\<rparr>)"
  by (simp add: checkAchievements_def checkLoop_closed [OF distinct_achievementDefinitions])

lemma checkAchievements_fields:
  "gameManager (snd (checkAchievements r s)) = gameManager s"
  "currentLevel (snd (checkAchievements r s)) = currentLevel s"
  "currentExp (snd (checkAchievements r s)) = currentExp s"
  "lsTotalScore (snd (checkAchievements r s)) = lsTotalScore s"
  "streakCount (snd (checkAchievements r s)) = streakCount s"
  "maxStreak (snd (checkAchievements r s)) = maxStreak s"
  by (simp_all add: checkAchievements_def split: prod.splits)

lemma addScore_currentExp: "currentExp (snd (addScore sc r s)) = currentExp s + sc"
  by (simp add: addScore_def Let_def checkAchievements_fields split: option.splits)

lemma addScore_lsTotalScore: "lsTotalScore (snd (addScore sc r s)) = lsTotalScore s + sc"
  by (simp add: addScore_def Let_def checkAchievements_fields split: option.splits)

lemma addScore_streakCount:
  "streakCount (snd (addScore sc r s)) =
     (case r of None \<Rightarrow> 0 | Some x \<Rightarrow> if isCorrect x then streakCount s + 1 else 0)"
  by (simp add: addScore_def Let_def checkAchievements_fields split: option.splits)

lemma addScore_maxStreak:
  "maxStreak (snd (addScore sc r s)) =
     (case r of None \<Rightarrow> maxStreak s
      | Some x \<Rightarrow> if isCorrect x then max (maxStreak s) (streakCount s + 1) else maxStreak s)"
  by (simp add: addScore_def Let_def checkAchievements_fields split: option.splits)

lemma addScore_calculateLevel:
  "calculateLevel (snd (addScore sc r s)) = levelLoop levelThresholds (currentExp s + sc) 20"
  by (simp add: calculateLevel_def addScore_currentExp length_levelThresholds)

lemma addScore_currentLevel:
  "currentLevel (snd (addScore sc r s)) =
     max (currentLevel s) (levelLoop levelThresholds (currentExp s + sc) 20)"
  by (simp add: addScore_def Let_def checkAchievements_fields calculateLevel_def
      length_levelThresholds max_def split: option.splits)

lemma addScore_leveledUp:
  "leveledUp (fst (addScore sc r s)) =
     (currentLevel s < levelLoop levelThresholds (currentExp s + sc) 20)"
  by (simp add: addScore_def Let_def calculateLevel_def length_levelThresholds
      split: option.splits)

lemma addScore_level_le20:
  "currentLevel s \<le> 20 \<Longrightarrow> currentLevel (snd (addScore sc r s)) \<le> 20"
  using levelLoop_le [of levelThresholds "currentExp s + sc" 20]
  by (simp add: addScore_currentLevel)

lemma addScores_level_mono: "currentLevel s \<le> currentLevel (addScores cs s)"
proof (induction cs arbitrary: s)
  case Nil
  show ?case by simp
next
  case (Cons c cs)
  obtain sc r where c: "c = (sc, r)" by (cases c)
  have "currentLevel s \<le> currentLevel (snd (addScore sc r s))"
    by (simp add: addScore_currentLevel)
  also have "\<dots> \<le> currentLevel (addScores cs (snd (addScore sc r s)))" by (rule Cons.IH)
  finally show ?case by (simp add: c)
qed

lemma addScores_level_le20:
  "currentLevel s \<le> 20 \<Longrightarrow> currentLevel (addScores cs s) \<le> 20"
proof (induction cs arbitrary: s)
  case Nil
  then show ?case by simp
next
  case (Cons c cs)
  obtain sc r where c: "c = (sc, r)" by (cases c)
  from Cons.prems have "currentLevel (snd (addScore sc r s)) \<le> 20"
    by (rule addScore_level_le20)
  then show ?case unfolding c by (simp add: Cons.IH)
qed

lemma addScore_levelMatches:
  assumes "levelMatches s" and "0 \<le> sc"
  shows "levelMatches (snd (addScore sc r s))"
proof -
  have "levelLoop levelThresholds (currentExp s) 20 \<le> levelLoop levelThresholds (currentExp s + sc) 20"
    by (rule levelLoop_mono) (use assms(2) in simp)
  with assms show ?thesis
    by (simp add: levelMatches_def addScore_currentExp addScore_currentLevel
        addScore_calculateLevel calculateLevel_def length_levelThresholds)
qed

lemma addScores_levelMatches:
  "levelMatches s \<Longrightarrow> \<forall>c \<in> set cs. 0 \<le> fst c \<Longrightarrow> levelMatches (addScores cs s)"
proof (induction cs arbitrary: s)
  case Nil
  then show ?case by simp
next
  case (Cons c cs)
  obtain sc r where c: "c = (sc, r)" by (cases c)
  from Cons.prems have "levelMatches (snd (addScore sc r s))"
    by (intro addScore_levelMatches) (simp_all add: c)
  with Cons.prems show ?case unfolding c by (simp add: Cons.IH)
qed

lemma levelMatches_new: "levelMatches (newLevelSystem gm)"
  by (simp add: levelMatches_def newLevelSystem_def calculateLevel_def levelThresholds_def)

lemma levelMatches_greatest: "levelMatches s \<Longrightarrow> greatestLevel (currentExp s) (currentLevel s)"
  by (simp add: levelMatches_def calculateLevel_greatest)

text \<open>
  C4 (as the code has it). \<^verbatim>\<open>calculateLevel\<close> returns the greatest 1-based index whose
  threshold the experience has reached, whenever the experience is not negative.
  \<^verbatim>\<open>addScore\<close> stores that value only when it is greater than the current level: after every
  call the level is the maximum of the level before and the recomputed one. It is therefore
  equal to the greatest index whenever the level agreed with the experience before the call
  and the score is not negative, and so after every sequence of non-negative scores applied
  to a new player. The flag \<open>leveledUp\<close> is true iff the recomputed level is strictly greater
  than the level before the call; across any sequence of calls the level never decreases,
  and it never exceeds 20 if it did not before.
\<close>

theorem addScore_level:
  "currentLevel (snd (addScore sc r s)) = max (currentLevel s) (calculateLevel (snd (addScore sc r s)))
   \<and> (0 \<le> currentExp s + sc \<longrightarrow>
        greatestLevel (currentExp (snd (addScore sc r s))) (calculateLevel (snd (addScore sc r s))))
   \<and> (0 \<le> currentExp s \<and> currentLevel s = calculateLevel s \<and> 0 \<le> sc \<longrightarrow>
        greatestLevel (currentExp (snd (addScore sc r s))) (currentLevel (snd (addScore sc r s))))
   \<and> ((\<forall>c \<in> set cs. 0 \<le> fst c) \<longrightarrow>
        greatestLevel (currentExp (addScores cs (newLevelSystem gm)))
          (currentLevel (addScores cs (newLevelSystem gm))))
   \<and> leveledUp (fst (addScore sc r s)) = (currentLevel s < calculateLevel (snd (addScore sc r s)))
   \<and> currentLevel s \<le> currentLevel (snd (addScore sc r s))
   \<and> currentLevel s \<le> currentLevel (addScores cs s)
   \<and> (currentLevel s \<le> 20 \<longrightarrow> currentLevel (addScores cs s) \<le> 20)"
proof (intro conjI impI)
  show "currentLevel (snd (addScore sc r s)) = max (currentLevel s) (calculateLevel (snd (addScore sc r s)))"
    by (simp add: addScore_currentLevel addScore_calculateLevel)
  show "greatestLevel (currentExp (snd (addScore sc r s))) (calculateLevel (snd (addScore sc r s)))"
    if "0 \<le> currentExp s + sc"
    by (rule calculateLevel_greatest) (simp add: addScore_currentExp that)
  show "greatestLevel (currentExp (snd (addScore sc r s))) (currentLevel (snd (addScore sc r s)))"
    if "0 \<le> currentExp s \<and> currentLevel s = calculateLevel s \<and> 0 \<le> sc"
  proof -
    from that have "levelMatches s" and "0 \<le> sc" by (simp_all add: levelMatches_def)
    then have "levelMatches (snd (addScore sc r s))" by (rule addScore_levelMatches)
    then show ?thesis by (rule levelMatches_greatest)
  qed
  show "greatestLevel (currentExp (addScores cs (newLevelSystem gm)))
          (currentLevel (addScores cs (newLevelSystem gm)))"
    if "\<forall>c \<in> set cs. 0 \<le> fst c"
    by (rule levelMatches_greatest, rule addScores_levelMatches [OF levelMatches_new that])
  show "leveledUp (fst (addScore sc r s)) = (currentLevel s < calculateLevel (snd (addScore sc r s)))"
    by (simp add: addScore_leveledUp addScore_calculateLevel)
  show "currentLevel s \<le> currentLevel (snd (addScore sc r s))"
    by (simp add: addScore_currentLevel)
  show "currentLevel s \<le> currentLevel (addScores cs s)"
    by (rule addScores_level_mono)
  show "currentLevel (addScores cs s) \<le> 20" if "currentLevel s \<le> 20"
    using that by (rule addScores_level_le20)
qed

theorem addScore_level_witness:
  "(0::int) \<le> currentExp fourInARow + 10
   \<and> 0 \<le> currentExp fourInARow \<and> currentLevel fourInARow = calculateLevel fourInARow \<and> (0::int) \<le> 10
   \<and> currentLevel fourInARow \<le> 20
   \<and> currentExp (snd (addScore 10 (Some correctResult) fourInARow)) = 105
   \<and> currentLevel (snd (addScore 10 (Some correctResult) fourInARow)) = 2
   \<and> leveledUp (fst (addScore 10 (Some correctResult) fourInARow))
   \<and> greatestLevel 105 2
   \<and> greatestLevel (currentExp (addScores [(100, None), (200, None)] (newLevelSystem (playing q001 ''B'' 45 1))))
        (currentLevel (addScores [(100, None), (200, None)] (newLevelSystem (playing q001 ''B'' 45 1))))
   \<and> currentLevel (addScores [(100, None), (200, None)] fourInARow) \<le> 20"
proof -
  note t = addScore_level [of 10 "Some correctResult" fourInARow "[(100, None), (200, None)]"
      "playing q001 ''B'' 45 1"]
  have h: "(0::int) \<le> currentExp fourInARow + 10" "0 \<le> currentExp fourInARow"
    "currentLevel fourInARow = calculateLevel fourInARow" "(0::int) \<le> 10"
    "currentLevel fourInARow \<le> 20"
    "\<forall>c \<in> set [(100::int, None :: score_result option), (200, None)]. 0 \<le> fst c"
    by (simp_all add: fourInARow_def calculateLevel_def levelThresholds_def)
  have e: "currentExp (snd (addScore 10 (Some correctResult) fourInARow)) = 105"
    "currentLevel (snd (addScore 10 (Some correctResult) fourInARow)) = 2"
    "calculateLevel (snd (addScore 10 (Some correctResult) fourInARow)) = 2"
    "currentLevel fourInARow = 1"
    by code_simp+
  from t h e show ?thesis by simp
qed

text \<open>
  A new player gains 100 points, reaching level 2, and then receives the score \<open>- 20\<close>
  (a total that \<^verbatim>\<open>calculateScore\<close> can return): the experience is 80, whose greatest index
  is 1, and the level is still 2.
\<close>

theorem addScore_level_counterexample:
  "currentLevel (addScores [(100, None), (- 20, None)] (newLevelSystem (playing q002 ''B'' 0 3))) = 2
   \<and> currentExp (addScores [(100, None), (- 20, None)] (newLevelSystem (playing q002 ''B'' 0 3))) = 80
   \<and> \<not> greatestLevel 80 2"
  by code_simp

lemma addScores_maxStreak_mono: "maxStreak s \<le> maxStreak (addScores cs s)"
proof (induction cs arbitrary: s)
  case Nil
  show ?case by simp
next
  case (Cons c cs)
  obtain sc r where c: "c = (sc, r)" by (cases c)
  have "maxStreak s \<le> maxStreak (snd (addScore sc r s))"
    by (simp add: addScore_maxStreak split: option.splits)
  also have "\<dots> \<le> maxStreak (addScores cs (snd (addScore sc r s)))" by (rule Cons.IH)
  finally show ?case by (simp add: c)
qed

text \<open>
  C5. A correct result increases the streak by exactly 1 and sets \<open>maxStreak\<close> to the maximum
  of its old value and the new streak; an incorrect result sets the streak to 0; and
  \<open>maxStreak\<close> never decreases, in one call or across any sequence of calls.
\<close>

theorem addScore_streak:
  "(isCorrect x \<longrightarrow>
      streakCount (snd (addScore sc (Some x) s)) = streakCount s + 1
      \<and> maxStreak (snd (addScore sc (Some x) s))
          = max (maxStreak s) (streakCount (snd (addScore sc (Some x) s))))
   \<and> (\<not> isCorrect x \<longrightarrow> streakCount (snd (addScore sc (Some x) s)) = 0)
   \<and> maxStreak s \<le> maxStreak (snd (addScore sc r s))
   \<and> maxStreak s \<le> maxStreak (addScores cs s)"
  using addScores_maxStreak_mono [of s cs]
  by (simp add: addScore_streakCount addScore_maxStreak split: option.splits)

theorem addScore_streak_witness:
  "isCorrect correctResult
   \<and> streakCount (snd (addScore 177 (Some correctResult) fourInARow)) = 5
   \<and> maxStreak (snd (addScore 177 (Some correctResult) fourInARow)) = 5
   \<and> \<not> isCorrect wrongResult
   \<and> streakCount (snd (addScore 0 (Some wrongResult) fourInARow)) = 0
   \<and> maxStreak (addScores [(0, Some wrongResult), (177, Some correctResult)] fourInARow) \<ge> 4"
  using addScore_streak [of correctResult 177 fourInARow None "[]"]
    addScore_streak [of wrongResult 0 fourInARow None "[(0, Some wrongResult), (177, Some correctResult)]"]
  by (simp add: correctResult_def wrongResult_def fourInARow_def)

lemma addScores_equal:
  "lsTotalScore s = currentExp s \<Longrightarrow> lsTotalScore (addScores cs s) = currentExp (addScores cs s)"
proof (induction cs arbitrary: s)
  case Nil
  then show ?case by simp
next
  case (Cons c cs)
  obtain sc r where c: "c = (sc, r)" by (cases c)
  from Cons.prems have "lsTotalScore (snd (addScore sc r s)) = currentExp (snd (addScore sc r s))"
    by (simp add: addScore_lsTotalScore addScore_currentExp)
  then show ?case unfolding c by (simp add: Cons.IH)
qed

text \<open>
  C9. Every \<^verbatim>\<open>addScore\<close> call adds the same amount, its score argument, to both
  \<open>totalScore\<close> and the experience; if the two are equal before a call, or before a
  sequence of calls, they are equal after it.
\<close>

theorem addScore_same_amount:
  "lsTotalScore (snd (addScore sc r s)) = lsTotalScore s + sc
   \<and> currentExp (snd (addScore sc r s)) = currentExp s + sc
   \<and> (lsTotalScore s = currentExp s \<longrightarrow>
        lsTotalScore (snd (addScore sc r s)) = currentExp (snd (addScore sc r s)))
   \<and> (lsTotalScore s = currentExp s \<longrightarrow>
        lsTotalScore (addScores cs s) = currentExp (addScores cs s))"
  using addScores_equal [of s cs]
  by (simp add: addScore_lsTotalScore addScore_currentExp)

theorem addScore_same_amount_witness:
  "lsTotalScore fourInARow = currentExp fourInARow
   \<and> lsTotalScore (snd (addScore 177 (Some correctResult) fourInARow)) = 272
   \<and> currentExp (snd (addScore 177 (Some correctResult) fourInARow)) = 272"
  using addScore_same_amount [of 177 "Some correctResult" fourInARow "[]"]
  by (simp add: fourInARow_def)

lemma condition_no_result:
  "(aid, cond) \<in> set achievementDefinitions \<Longrightarrow>
   cond st None = cond st (Some (x\<lparr>isCorrect := False\<rparr>))"
  unfolding achievementDefinitions_def by auto

lemma unlockable_no_result:
  "unlockable st None ach achievementDefinitions
   = unlockable st (Some (x\<lparr>isCorrect := False\<rparr>)) ach achievementDefinitions"
proof -
  have "filter (\<lambda>(aid, cond). aid \<notin> set ach \<and> cond st None) achievementDefinitions
      = filter (\<lambda>(aid, cond). aid \<notin> set ach \<and> cond st (Some (x\<lparr>isCorrect := False\<rparr>)))
          achievementDefinitions"
    by (rule filter_cong) (auto dest: condition_no_result [of _ _ st x])
  then show ?thesis by (simp only: unlockable_def)
qed

text \<open>
  C10. Called without a question result, \<^verbatim>\<open>addScore\<close> sets the streak to 0, leaves
  \<open>maxStreak\<close> unchanged and still adds the score to \<open>totalScore\<close> and the experience; the
  whole outcome is the one of a call with an incorrect result.
\<close>

theorem addScore_no_result:
  "streakCount (snd (addScore sc None s)) = 0
   \<and> maxStreak (snd (addScore sc None s)) = maxStreak s
   \<and> lsTotalScore (snd (addScore sc None s)) = lsTotalScore s + sc
   \<and> currentExp (snd (addScore sc None s)) = currentExp s + sc
   \<and> addScore sc None s = addScore sc (Some (x\<lparr>isCorrect := False\<rparr>)) s"
proof -
  have "addScore sc None s = addScore sc (Some (x\<lparr>isCorrect := False\<rparr>)) s"
    by (simp add: addScore_def Let_def checkAchievements_closed getPlayerStats_def
        unlockable_no_result [of _ _ x])
  then show ?thesis
    by (simp add: addScore_streakCount addScore_maxStreak addScore_lsTotalScore
        addScore_currentExp del: score_result.simps)
qed

theorem addScore_no_result_witness:
  "streakCount (snd (addScore 50 None fourInARow)) = 0
   \<and> maxStreak (snd (addScore 50 None fourInARow)) = 4
   \<and> lsTotalScore (snd (addScore 50 None fourInARow)) = 145
   \<and> currentExp (snd (addScore 50 None fourInARow)) = 145
   \<and> addScore 50 None fourInARow = addScore 50 (Some wrongResult) fourInARow"
proof -
  have w: "wrongResult\<lparr>isCorrect := False\<rparr> = wrongResult"
    by (simp add: wrongResult_def)
  have v: "maxStreak fourInARow = 4" "lsTotalScore fourInARow + 50 = 145"
    "currentExp fourInARow + 50 = 145"
    by (simp_all add: fourInARow_def)
  from addScore_no_result [of 50 fourInARow wrongResult] show ?thesis
    unfolding w v .
qed

lemma unlockable_disjoint: "set (unlockable st r ach ds) \<inter> set ach = {}"
  by (auto simp: unlockable_def)

lemma unlockable_again: "unlockable st r (ach @ unlockable st r ach ds) ds = []"
proof -
  have "\<forall>d \<in> set ds. \<not> (case d of (aid, cond) \<Rightarrow>
          aid \<notin> set (ach @ unlockable st r ach ds) \<and> cond st r)"
    by (force simp: unlockable_def)
  then have "filter (\<lambda>(aid, cond). aid \<notin> set (ach @ unlockable st r ach ds) \<and> cond st r) ds = []"
    by (simp only: filter_empty_conv)
  then show ?thesis by (simp add: unlockable_def [of st r "ach @ unlockable st r ach ds"])
qed

lemma getPlayerStats_achievements: "getPlayerStats (s\<lparr>achievements := a\<rparr>) = getPlayerStats s"
  by (simp add: getPlayerStats_def)

lemma getPlayerStats_currentLevel: "getPlayerStats (s\<lparr>currentLevel := a\<rparr>) = getPlayerStats s"
  by (simp add: getPlayerStats_def)

lemma addScore_achievements:
  "achievements (snd (addScore sc r s)) =
     achievements s @ unlockable (getPlayerStats (snd (addScore sc r s))) r (achievements s)
       achievementDefinitions"
  by (simp add: addScore_def Let_def checkAchievements_closed getPlayerStats_achievements
      getPlayerStats_currentLevel split: option.splits)

lemma addScores_achievements_mono: "set (achievements s) \<subseteq> set (achievements (addScores cs s))"
proof (induction cs arbitrary: s)
  case Nil
  show ?case by simp
next
  case (Cons c cs)
  obtain sc r where c: "c = (sc, r)" by (cases c)
  have "set (achievements s) \<subseteq> set (achievements (snd (addScore sc r s)))"
    by (subst addScore_achievements) simp
  also have "\<dots> \<subseteq> set (achievements (addScores cs (snd (addScore sc r s))))" by (rule Cons.IH)
  finally show ?case by (simp add: c)
qed

text \<open>
  C6. \<^verbatim>\<open>checkAchievements\<close> reports exactly the identifiers that are not yet unlocked and
  whose condition holds on the current statistics and the last result, in declaration
  order, and appends them to the unlocked list. So an identifier already unlocked is never
  reported, a second evaluation on the resulting state reports nothing, and neither
  \<^verbatim>\<open>checkAchievements\<close> nor \<^verbatim>\<open>addScore\<close>, nor any sequence of \<^verbatim>\<open>addScore\<close> calls, removes an
  identifier. Inside \<^verbatim>\<open>addScore\<close> the conditions are evaluated on the statistics after the
  score and the streak have been updated.
\<close>

theorem checkAchievements_idempotent_permanent:
  "fst (checkAchievements r s)
     = unlockable (getPlayerStats s) r (achievements s) achievementDefinitions
   \<and> achievements (snd (checkAchievements r s)) = achievements s @ fst (checkAchievements r s)
   \<and> set (fst (checkAchievements r s)) \<inter> set (achievements s) = {}
   \<and> fst (checkAchievements r (snd (checkAchievements r s))) = []
   \<and> achievements (snd (addScore sc r s))
       = achievements s @ unlockable (getPlayerStats (snd (addScore sc r s))) r (achievements s)
           achievementDefinitions
   \<and> set (achievements s) \<subseteq> set (achievements (snd (addScore sc r s)))
   \<and> set (achievements s) \<subseteq> set (achievements (addScores cs s))"
proof (intro conjI)
  show "fst (checkAchievements r s)
     = unlockable (getPlayerStats s) r (achievements s) achievementDefinitions"
    by (simp add: checkAchievements_closed)
  show "achievements (snd (checkAchievements r s)) = achievements s @ fst (checkAchievements r s)"
    by (simp add: checkAchievements_closed)
  show "set (fst (checkAchievements r s)) \<inter> set (achievements s) = {}"
    by (simp add: checkAchievements_closed unlockable_disjoint)
  show "fst (checkAchievements r (snd (checkAchievements r s))) = []"
    by (simp add: checkAchievements_closed getPlayerStats_achievements unlockable_again)
  show "achievements (snd (addScore sc r s))
       = achievements s @ unlockable (getPlayerStats (snd (addScore sc r s))) r (achievements s)
           achievementDefinitions"
    by (rule addScore_achievements)
  show "set (achievements s) \<subseteq> set (achievements (snd (addScore sc r s)))"
    by (subst addScore_achievements) simp
  show "set (achievements s) \<subseteq> set (achievements (addScores cs s))"
    by (rule addScores_achievements_mono)
qed

theorem checkAchievements_idempotent_permanent_witness:
  "fst (checkAchievements (Some correctResult) (fourInARow\<lparr>maxStreak := 5\<rparr>)) = [''streak_5'']
   \<and> achievements (snd (checkAchievements (Some correctResult) (fourInARow\<lparr>maxStreak := 5\<rparr>)))
       = [''first_correct'', ''streak_5'']
   \<and> achievements (snd (addScore 177 (Some correctResult) fourInARow))
       = [''first_correct'', ''streak_5'']
   \<and> set [''first_correct''] \<subseteq> set (achievements (snd (addScore 177 (Some correctResult) fourInARow)))"
proof -
  note t = checkAchievements_idempotent_permanent
    [of "Some correctResult" "fourInARow\<lparr>maxStreak := 5\<rparr>" 177 "[]"]
  note u = checkAchievements_idempotent_permanent
    [of "Some correctResult" fourInARow 177 "[]"]
  have a: "unlockable (getPlayerStats (fourInARow\<lparr>maxStreak := 5\<rparr>)) (Some correctResult)
          (achievements (fourInARow\<lparr>maxStreak := 5\<rparr>)) achievementDefinitions = [''streak_5'']"
    by code_simp
  have b: "unlockable (getPlayerStats (snd (addScore 177 (Some correctResult) fourInARow)))
          (Some correctResult) (achievements fourInARow) achievementDefinitions = [''streak_5'']"
    by code_simp
  have c: "achievements fourInARow = [''first_correct'']" by (simp add: fourInARow_def)
  from t a c have 1: "fst (checkAchievements (Some correctResult) (fourInARow\<lparr>maxStreak := 5\<rparr>)) = [''streak_5'']"
    and 2: "achievements (snd (checkAchievements (Some correctResult) (fourInARow\<lparr>maxStreak := 5\<rparr>)))
       = [''first_correct'', ''streak_5'']" by simp_all
  from u b c have 3: "achievements (snd (addScore 177 (Some correctResult) fourInARow))
       = [''first_correct'', ''streak_5'']" by simp
  from u c have 4: "set [''first_correct''] \<subseteq> set (achievements (snd (addScore 177 (Some correctResult) fourInARow)))"
    by simp
  from 1 2 3 4 show ?thesis by blast
qed

section \<open>Properties of the hint resolver and the dialogue\<close>

lemma templateText_nonempty: "templateText t l k \<noteq> []"
  by (simp add: templateText_def)

lemma levelObject_base: "levelObject t l ''base'' = Str (templateText t l ''base'')"
  by (simp add: levelObject_def hintKeys_def)

lemma levelObject_npc:
  assumes "k \<notin> set objectMembers"
  shows "levelObject t l k = Str (templateText t l k) \<or> levelObject t l k = Undefined"
  using assms by (simp add: levelObject_def)

lemma jsOr_levelObject:
  assumes "k \<notin> set objectMembers"
  shows "\<exists>s. jsOr (levelObject t l k) (levelObject t l ''base'') = Str s \<and> s \<noteq> []"
  using levelObject_npc [OF assms, of t l]
  by (auto simp: jsOr_def truthy_def levelObject_base templateText_nonempty)

lemma tryRemoteHint_throws:
  "remoteThrows rem \<Longrightarrow>
   \<exists>e n'. tryRemoteHint continue rem n = (Throws e, n') \<and> npcCurrentNpc n' = npcCurrentNpc n"
  by (auto simp: remoteThrows_def tryRemoteHint_def showNpcHint_def typeMessage_def
      split: remote.splits body.splits)

lemma tryRemoteHint_payload:
  assumes "responseOk status" and "\<not> remoteThrows (Response status (JsonObject p))"
  shows "tryRemoteHint continue (Response status (JsonObject p)) n
           = (if continue then Returns p else Waits, n\<lparr>isTyping := False\<rparr>)"
  using assms
  by (auto simp: remoteThrows_def tryRemoteHint_def showNpcHint_def typeMessage_def
      split: jsval.splits)

lemma levelHints_defined:
  assumes "level = 1 \<or> level = 2 \<or> level = 3"
  shows "\<exists>t. (case (case enhancedHintTemplates c of Some t \<Rightarrow> t | None \<Rightarrow> defaultHints) level of
                 Some l \<Rightarrow> Some l | None \<Rightarrow> defaultHints level)
              = Some (levelObject t level)"
  using assms by (auto simp: enhancedHintTemplates_def defaultHints_def categoryObject_def)

lemma generateEnhancedFallbackHint_ok:
  assumes "npcCurrentNpc n = Some npc" and "npc \<notin> set objectMembers"
    and "level = 1 \<or> level = 2 \<or> level = 3"
  shows "\<exists>h sh sm. generateEnhancedFallbackHint n q level = Inr h
           \<and> source h = Some ''enhanced_fallback''
           \<and> hint h = Str sh \<and> sh \<noteq> [] \<and> message h = Str sm \<and> sm \<noteq> []
           \<and> hintLevel h = Some level \<and> npcId h = Some npc"
proof -
  define c where "c = (case category q of None \<Rightarrow> ''GENERAL''
        | Some c \<Rightarrow> if toUpperCase c = [] then ''GENERAL'' else toUpperCase c)"
  from levelHints_defined [OF assms(3), of c] obtain t where
    t: "(case (case enhancedHintTemplates c of Some t \<Rightarrow> t | None \<Rightarrow> defaultHints) level of
                 Some l \<Rightarrow> Some l | None \<Rightarrow> defaultHints level) = Some (levelObject t level)"
    by blast
  from jsOr_levelObject [OF assms(2), of t level] obtain sm where
    sm: "jsOr (levelObject t level npc) (levelObject t level ''base'') = Str sm" "sm \<noteq> []"
    by blast
  show ?thesis
    unfolding generateEnhancedFallbackHint_def Let_def c_def [symmetric] t
    using sm by (simp add: assms(1) levelObject_base templateText_nonempty)
qed

lemma generateEnhancedFallbackHint_cong:
  assumes "npcCurrentNpc n1 = npcCurrentNpc n"
  shows "generateEnhancedFallbackHint n1 q level = generateEnhancedFallbackHint n q level"
  unfolding generateEnhancedFallbackHint_def assms by (rule refl)

lemma requestNpcHint_on_throw:
  assumes "npcCurrentNpc n = Some npc" and "npc \<noteq> []" and "npc \<notin> set objectMembers"
    and "level = 1 \<or> level = 2 \<or> level = 3" and "remoteThrows rem"
  shows "\<exists>h sh sm n'. generateEnhancedFallbackHint n q level = Inr h
           \<and> source h = Some ''enhanced_fallback''
           \<and> hint h = Str sh \<and> sh \<noteq> [] \<and> message h = Str sm \<and> sm \<noteq> []
           \<and> requestNpcHint continue q level rem n
               = (if continue then Returns (Some h) else Waits, n')
           \<and> \<not> isTyping n'"
proof -
  from tryRemoteHint_throws [OF assms(5)] obtain e n1 where
    t: "tryRemoteHint continue rem n = (Throws e, n1)" and c: "npcCurrentNpc n1 = npcCurrentNpc n"
    by blast
  from generateEnhancedFallbackHint_ok [OF assms(1,3,4)] obtain h sh sm where
    g: "generateEnhancedFallbackHint n q level = Inr h"
    and s: "source h = Some ''enhanced_fallback''"
    and th: "hint h = Str sh" "sh \<noteq> []" and tm: "message h = Str sm" "sm \<noteq> []"
    by blast
  have g1: "generateEnhancedFallbackHint n1 q level = Inr h"
    using g generateEnhancedFallbackHint_cong [OF c] by simp
  have sel: "selected (npcCurrentNpc n)" using assms(1,2) by (simp add: selected_def)
  have "requestNpcHint continue q level rem n
        = (if continue then Returns (Some h) else Waits, n1\<lparr>isTyping := False\<rparr>)"
    using sel tm
    by (simp add: requestNpcHint_def t g1 showNpcHint_def typeMessage_def jsOr_def truthy_def)
  with g s th tm show ?thesis by simp
qed

lemma requestNpcHint_on_payload:
  assumes "selected (npcCurrentNpc n)" and "responseOk status"
    and "\<not> remoteThrows (Response status (JsonObject p))"
  shows "requestNpcHint continue q level (Response status (JsonObject p)) n
           = (if continue then Returns (Some p) else Waits, n\<lparr>isTyping := False\<rparr>)"
  using assms(1) by (simp add: requestNpcHint_def tryRemoteHint_payload [OF assms(2,3)])

lemma requestNpcHint_no_response:
  "selected (npcCurrentNpc n) \<Longrightarrow> requestNpcHint continue q level NoResponse n = (Waits, n)"
  by (simp add: requestNpcHint_def tryRemoteHint_def)

lemma remote_cases:
  "remoteThrows rem \<or> rem = NoResponse
   \<or> (\<exists>status p. rem = Response status (JsonObject p) \<and> responseOk status \<and> \<not> remoteThrows rem)"
  by (cases rem) (auto simp: remoteThrows_def split: body.splits)

text \<open>
  C7 (as the code has it). Let an NPC be selected whose id does not name a member of
  \<^verbatim>\<open>Object.prototype\<close>, and let the hint level be 1, 2 or 3. Then \<^verbatim>\<open>requestNpcHint\<close> never
  throws. Whenever the remote attempt throws (the request is rejected, the status is not a
  success, the body does not parse, or the payload is null or has neither a message nor a
  hint) it shows the hint that \<^verbatim>\<open>generateEnhancedFallbackHint\<close> builds from the local tables
  and, once the player presses continue, returns it; until then the call stays pending.
  The hint and the message of that object are non-empty strings and its source field is
  \<^verbatim>\<open>enhanced_fallback\<close>. A payload that does not make the attempt throw, even one with empty
  or non-string texts, is shown and returned as it is, with no fallback.
\<close>

theorem requestNpcHint_fallback:
  assumes "npcCurrentNpc n = Some npc" and "npc \<noteq> []" and "npc \<notin> set objectMembers"
    and "level = 1 \<or> level = 2 \<or> level = 3"
  shows "(\<forall>e. fst (requestNpcHint continue q level rem n) \<noteq> Throws e)
    \<and> (remoteThrows rem \<longrightarrow>
         (\<exists>h sh sm n'. generateEnhancedFallbackHint n q level = Inr h
            \<and> source h = Some ''enhanced_fallback''
            \<and> hint h = Str sh \<and> sh \<noteq> [] \<and> message h = Str sm \<and> sm \<noteq> []
            \<and> requestNpcHint continue q level rem n
                = (if continue then Returns (Some h) else Waits, n')
            \<and> \<not> isTyping n'))
    \<and> (responseOk status \<and> \<not> remoteThrows (Response status (JsonObject p)) \<longrightarrow>
         requestNpcHint continue q level (Response status (JsonObject p)) n
           = (if continue then Returns (Some p) else Waits, n\<lparr>isTyping := False\<rparr>))"
proof (intro conjI impI allI)
  have sel: "selected (npcCurrentNpc n)" using assms(1,2) by (simp add: selected_def)
  show "\<exists>h sh sm n'. generateEnhancedFallbackHint n q level = Inr h
            \<and> source h = Some ''enhanced_fallback''
            \<and> hint h = Str sh \<and> sh \<noteq> [] \<and> message h = Str sm \<and> sm \<noteq> []
            \<and> requestNpcHint continue q level rem n
                = (if continue then Returns (Some h) else Waits, n')
            \<and> \<not> isTyping n'" if "remoteThrows rem"
    by (rule requestNpcHint_on_throw [OF assms that])
  show "requestNpcHint continue q level (Response status (JsonObject p)) n
           = (if continue then Returns (Some p) else Waits, n\<lparr>isTyping := False\<rparr>)"
    if "responseOk status \<and> \<not> remoteThrows (Response status (JsonObject p))"
    using that by (intro requestNpcHint_on_payload [OF sel]) simp_all
  show "fst (requestNpcHint continue q level rem n) \<noteq> Throws e" for e
  proof -
    from remote_cases [of rem] consider "remoteThrows rem" | "rem = NoResponse"
      | status' p' where "rem = Response status' (JsonObject p')" "responseOk status'"
          "\<not> remoteThrows rem"
      by blast
    then show ?thesis
    proof cases
      case 1
      from requestNpcHint_on_throw [OF assms 1, of q continue] show ?thesis
        by (cases continue) auto
    next
      case 2
      then show ?thesis by (simp add: requestNpcHint_no_response [OF sel])
    next
      case 3
      then show ?thesis by (simp add: requestNpcHint_on_payload [OF sel])
    qed
  qed
qed

text \<open>
  Two malformed payloads arriving with status 200, one whose hint and message are empty
  strings and one whose message is a number: each is returned as the hint, with no usable
  text and no source field, and the local tables are not consulted.
\<close>

theorem requestNpcHint_malformed_payload:
  "requestNpcHint True q001 1 (Response 200 (JsonObject emptyPayload)) idleNpc
     = (Returns (Some emptyPayload), idleNpc)
   \<and> requestNpcHint True q001 1 (Response 200 (JsonObject numberPayload)) idleNpc
     = (Returns (Some numberPayload), idleNpc)
   \<and> hint emptyPayload = Str [] \<and> message emptyPayload = Str [] \<and> source emptyPayload = None
   \<and> message numberPayload = Other True \<and> source numberPayload = None"
  by code_simp

text \<open>
  A rejected request for the first hint of \<open>q001\<close> yields the entries of the EC2 table.
\<close>

lemma requestNpcHint_rejected_fetch:
  "requestNpcHint True q001 1 FetchRejected idleNpc =
     (Returns (Some \<lparr> hint = Str ''EC2/1/base'', message = Str ''EC2/1/alex_ceo'',
                      hintLevel = Some 1, source = Some ''enhanced_fallback'',
                      npcId = Some ''alex_ceo'', hCategory = Some ''EC2'' \<rparr>),
      idleNpc)"
  by code_simp

text \<open>
  Outside the levels 1 to 3 the tables have no entry, and the error thrown inside the
  \<^verbatim>\<open>catch\<close> block reaches the caller.
\<close>

lemma requestNpcHint_level_out_of_range:
  "requestNpcHint True q001 4 FetchRejected idleNpc = (Throws TypeError, idleNpc)"
  by code_simp

text \<open>
  With an NPC id that names an inherited member the message of the fallback hint is that
  member, not a text.
\<close>

lemma requestNpcHint_inherited_key:
  "requestNpcHint True q001 1 FetchRejected (idleNpc\<lparr>npcCurrentNpc := Some ''constructor''\<rparr>) =
     (Returns (Some \<lparr> hint = Str ''EC2/1/base'', message = Other True,
                      hintLevel = Some 1, source = Some ''enhanced_fallback'',
                      npcId = Some ''constructor'', hCategory = Some ''EC2'' \<rparr>),
      idleNpc\<lparr>npcCurrentNpc := Some ''constructor''\<rparr>)"
  by code_simp

theorem requestNpcHint_fallback_witness:
  "npcCurrentNpc idleNpc = Some ''alex_ceo'' \<and> ''alex_ceo'' \<noteq> []
   \<and> ''alex_ceo'' \<notin> set objectMembers
   \<and> remoteThrows (Response 500 InvalidJson)
   \<and> (\<exists>h sm n'. requestNpcHint True q002 2 (Response 500 InvalidJson) idleNpc = (Returns (Some h), n')
          \<and> source h = Some ''enhanced_fallback'' \<and> message h = Str sm \<and> sm \<noteq> [])
   \<and> responseOk 200 \<and> \<not> remoteThrows (Response 200 (JsonObject emptyPayload))
   \<and> requestNpcHint True q002 2 (Response 200 (JsonObject emptyPayload)) idleNpc
       = (Returns (Some emptyPayload), idleNpc\<lparr>isTyping := False\<rparr>)"
proof -
  have h: "npcCurrentNpc idleNpc = Some ''alex_ceo''" "''alex_ceo'' \<noteq> []"
    "''alex_ceo'' \<notin> set objectMembers" "(2::nat) = 1 \<or> (2::nat) = 2 \<or> (2::nat) = 3"
    by (simp_all add: idleNpc_def objectMembers_def)
  have t: "remoteThrows (Response 500 InvalidJson)"
    by (simp add: remoteThrows_def responseOk_def)
  have o: "responseOk 200" "\<not> remoteThrows (Response 200 (JsonObject emptyPayload))"
    by (simp_all add: remoteThrows_def responseOk_def emptyPayload_def jsOr_def truthy_def)
  note a = requestNpcHint_fallback
    [OF h, of True q002 "Response 500 InvalidJson" 200 emptyPayload]
  from a t obtain hd sm n' where
    "source hd = Some ''enhanced_fallback''" "message hd = Str sm" "sm \<noteq> []"
    "requestNpcHint True q002 2 (Response 500 InvalidJson) idleNpc = (Returns (Some hd), n')"
    by auto
  moreover from a o
  have "requestNpcHint True q002 2 (Response 200 (JsonObject emptyPayload)) idleNpc
       = (Returns (Some emptyPayload), idleNpc\<lparr>isTyping := False\<rparr>)"
    by simp
  ultimately show ?thesis using h t o by blast
qed

lemma tryRemoteHint_typing:
  "fst (tryRemoteHint continue rem (n\<lparr>isTyping := b\<rparr>)) = fst (tryRemoteHint continue rem n)"
  "npcCurrentNpc (snd (tryRemoteHint continue rem n)) = npcCurrentNpc n"
  by (auto simp: tryRemoteHint_def showNpcHint_def typeMessage_def
      split: remote.splits body.splits jsval.splits)

lemma showNpcHint_fst:
  "fst (showNpcHint continue h n1) = fst (showNpcHint continue h n2)"
  by (simp add: showNpcHint_def typeMessage_def split: option.splits jsval.splits)

lemma requestNpcHint_typing:
  "fst (requestNpcHint continue q level rem (n\<lparr>isTyping := b\<rparr>))
   = fst (requestNpcHint continue q level rem n)"
proof -
  obtain r1 n1 where t1: "tryRemoteHint continue rem (n\<lparr>isTyping := b\<rparr>) = (r1, n1)" by force
  obtain r2 n2 where t2: "tryRemoteHint continue rem n = (r2, n2)" by force
  from t1 t2 tryRemoteHint_typing(1) [of continue rem b n] have r: "r1 = r2" by simp
  from t1 tryRemoteHint_typing(2) [of continue rem "n\<lparr>isTyping := b\<rparr>"]
  have c1: "npcCurrentNpc n1 = npcCurrentNpc n" by simp
  from t2 tryRemoteHint_typing(2) [of continue rem n]
  have c2: "npcCurrentNpc n2 = npcCurrentNpc n" by simp
  have g: "generateEnhancedFallbackHint n1 q level = generateEnhancedFallbackHint n2 q level"
    using generateEnhancedFallbackHint_cong [of n1 n] generateEnhancedFallbackHint_cong [of n2 n]
      c1 c2 by simp
  show ?thesis
  proof (cases r2)
    case (Returns h)
    then show ?thesis by (simp add: requestNpcHint_def t1 t2 r)
  next
    case Waits
    then show ?thesis by (simp add: requestNpcHint_def t1 t2 r)
  next
    case (Throws e)
    show ?thesis
    proof (cases "generateEnhancedFallbackHint n2 q level")
      case gl: (Inl e')
      then show ?thesis by (simp add: requestNpcHint_def t1 t2 r Throws g)
    next
      case gr: (Inr fb)
      obtain a1 m1 where s1: "showNpcHint continue (Some fb) n1 = (a1, m1)" by force
      obtain a2 m2 where s2: "showNpcHint continue (Some fb) n2 = (a2, m2)" by force
      from showNpcHint_fst [of continue "Some fb" n1 n2] s1 s2 have "a1 = a2" by simp
      then show ?thesis
        by (simp add: requestNpcHint_def t1 t2 r Throws g gr s1 s2 split: completion.splits)
    qed
  qed
qed

lemma requestHint_typing:
  "fst (requestHint continue rem (g, Some (n\<lparr>isTyping := b\<rparr>)))
     = fst (requestHint continue rem (g, Some n))
   \<and> fst (snd (requestHint continue rem (g, Some (n\<lparr>isTyping := b\<rparr>))))
       = fst (snd (requestHint continue rem (g, Some n)))"
proof (cases "currentQuestion g")
  case None
  then show ?thesis by (simp add: requestHint_def)
next
  case (Some q)
  obtain r1 n1 where t1:
    "requestNpcHint continue q (hintsUsed g + 1) rem (n\<lparr>isTyping := b\<rparr>) = (r1, n1)" by force
  obtain r2 n2 where t2: "requestNpcHint continue q (hintsUsed g + 1) rem n = (r2, n2)" by force
  from requestNpcHint_typing [of continue q "hintsUsed g + 1" rem b n] t1 t2 have "r1 = r2" by simp
  then show ?thesis
    using t1 t2 by (simp add: requestHint_def Some split: completion.splits)
qed

lemma requestHint_declines:
  "(fst (requestHint continue rem (g, ns)) = NoQuestionWarning
    \<or> fst (requestHint continue rem (g, ns)) = NoHintsWarning)
    \<longleftrightarrow> (currentQuestion g = None \<or> 3 \<le> hintsUsed g)"
  by (auto simp: requestHint_def split: option.splits prod.splits completion.splits if_splits)

text \<open>
  C8 (as the code has it). \<^verbatim>\<open>requestHint\<close> does not look at \<^verbatim>\<open>isTyping\<close>: its outcome and
  the game manager it leaves are the same whether or not a typed-text effect is active. It
  declines, with a warning, exactly when no question is loaded or three hints have been
  used. \<^verbatim>\<open>skipDialogue\<close> while no typed effect is active leaves the NPC system as it is.
\<close>

theorem requestHint_ignores_typing:
  "fst (requestHint continue rem (g, Some (n\<lparr>isTyping := b\<rparr>)))
     = fst (requestHint continue rem (g, Some n))
   \<and> fst (snd (requestHint continue rem (g, Some (n\<lparr>isTyping := b\<rparr>))))
       = fst (snd (requestHint continue rem (g, Some n)))
   \<and> ((fst (requestHint continue rem (g, ns)) = NoQuestionWarning
        \<or> fst (requestHint continue rem (g, ns)) = NoHintsWarning)
       \<longleftrightarrow> (currentQuestion g = None \<or> 3 \<le> hintsUsed g))
   \<and> (\<not> isTyping n \<longrightarrow> skipDialogue n = n)"
  using requestHint_typing [of continue rem g b n] requestHint_declines [of continue rem g ns]
  by (simp add: skipDialogue_def)

text \<open>
  A hint requested while a line is being typed is not rejected: the NPC hint is shown and
  the hint counter goes from 0 to 1.
\<close>

theorem requestHint_while_typing:
  "isTyping typingNpc
   \<and> requestHint True FetchRejected (playing q001 ''B'' 45 0, Some typingNpc) =
     (NpcHint (Some \<lparr> hint = Str ''EC2/1/base'', message = Str ''EC2/1/alex_ceo'',
                      hintLevel = Some 1, source = Some ''enhanced_fallback'',
                      npcId = Some ''alex_ceo'', hCategory = Some ''EC2'' \<rparr>),
      playing q001 ''B'' 45 1,
      Some (typingNpc\<lparr>isTyping := False\<rparr>))"
  by code_simp

theorem requestHint_ignores_typing_witness:
  "\<not> isTyping idleNpc \<and> skipDialogue idleNpc = idleNpc
   \<and> fst (requestHint True FetchRejected (playing q001 ''B'' 45 0, Some (idleNpc\<lparr>isTyping := True\<rparr>)))
      = fst (requestHint True FetchRejected (playing q001 ''B'' 45 0, Some idleNpc))"
proof -
  have h: "\<not> isTyping idleNpc" by (simp add: idleNpc_def)
  from requestHint_ignores_typing
    [of True FetchRejected "playing q001 ''B'' 45 0" True idleNpc "Some idleNpc"] h
  show ?thesis by blast
qed

end
